theory Spec2Isabelle
  imports Main
begin

section \<open>Python values\<close>

text \<open>
  The retrieval layer of \<^verbatim>\<open>src/trial_logic/get_results_caching_redis.py\<close> handles
  untyped Python values: DynamoDB items, decoded JSON documents and the response
  dictionaries it builds.  A value is one of: \<^verbatim>\<open>None\<close>, a \<^verbatim>\<open>bool\<close>, an \<^verbatim>\<open>int\<close>, a DynamoDB
  number (boto3 hands it over as an integral \<^verbatim>\<open>decimal.Decimal\<close>), a \<^verbatim>\<open>str\<close>, a \<^verbatim>\<open>list\<close> or a
  \<^verbatim>\<open>dict\<close>.  A dictionary is an association list in insertion order.  Floating point
  numbers, non-integral decimals, sets and binary values are outside the model; strings
  are byte strings, so \<^verbatim>\<open>str.lower\<close> is the ASCII one.
\<close>

datatype pyval =
    PNone
  | PBool bool
  | PInt int
  | PDecimal int
  | PStr string
  | PList "pyval list"
  | PDict "(pyval \<times> pyval) list"

type_synonym pydict = "(pyval \<times> pyval) list"

text \<open>
  The exceptions the code can meet.  All of them are subclasses of \<^verbatim>\<open>Exception\<close>.
  \<open>AttributeError t a\<close>: a value of type \<open>t\<close> has no attribute \<open>a\<close>;
  \<open>StoreError m\<close>: a fault of a backend client (boto3, redis) whose text is \<open>m\<close>.
  \<^verbatim>\<open>JSONDecodeError\<close> is a subclass of \<^verbatim>\<open>ValueError\<close>; \<open>ValueError m\<close> stands for a
  \<^verbatim>\<open>ValueError\<close> that is not a \<^verbatim>\<open>JSONDecodeError\<close>.
\<close>

datatype pyerr =
    KeyError string
  | TypeError string
  | AttributeError string string
  | JSONDecodeError
  | RecursionError
  | ValueError string
  | StoreError string

fun type_name :: "pyval \<Rightarrow> string" where
  "type_name PNone = ''NoneType''"
| "type_name (PBool _) = ''bool''"
| "type_name (PInt _) = ''int''"
| "type_name (PDecimal _) = ''decimal.Decimal''"
| "type_name (PStr _) = ''str''"
| "type_name (PList _) = ''list''"
| "type_name (PDict _) = ''dict''"

text \<open>\<^verbatim>\<open>str(e)\<close> of an exception, in CPython's wording.\<close>

fun exc_str :: "pyerr \<Rightarrow> string" where
  "exc_str (KeyError k) = [CHR 0x27] @ k @ [CHR 0x27]"
| "exc_str (TypeError m) = m"
| "exc_str (AttributeError t a) =
     [CHR 0x27] @ t @ [CHR 0x27] @ '' object has no attribute '' @ [CHR 0x27] @ a @ [CHR 0x27]"
| "exc_str JSONDecodeError = ''Expecting value''"
| "exc_str RecursionError = ''maximum recursion depth exceeded''"
| "exc_str (ValueError m) = m"
| "exc_str (StoreError m) = m"

text \<open>Truth value testing (\<^verbatim>\<open>if x:\<close>, \<^verbatim>\<open>not x\<close>).\<close>

fun truthy :: "pyval \<Rightarrow> bool" where
  "truthy PNone = False"
| "truthy (PBool b) = b"
| "truthy (PInt n) = (n \<noteq> 0)"
| "truthy (PDecimal n) = (n \<noteq> 0)"
| "truthy (PStr s) = (s \<noteq> [])"
| "truthy (PList xs) = (xs \<noteq> [])"
| "truthy (PDict kvs) = (kvs \<noteq> [])"

text \<open>Lists and dictionaries are unhashable: using one as a key raises \<^verbatim>\<open>TypeError\<close>.\<close>

fun hashable :: "pyval \<Rightarrow> bool" where
  "hashable (PList _) = False"
| "hashable (PDict _) = False"
| "hashable _ = True"

text \<open>
  Keys are compared with \<^verbatim>\<open>==\<close>, under which \<^verbatim>\<open>True\<close>, \<^verbatim>\<open>1\<close> and \<^verbatim>\<open>Decimal(1)\<close> are one key.
  \<open>key_norm\<close> maps a key to the representative of its class.
\<close>

fun key_norm :: "pyval \<Rightarrow> pyval" where
  "key_norm (PBool b) = PInt (if b then 1 else 0)"
| "key_norm (PDecimal n) = PInt n"
| "key_norm v = v"

fun dict_get :: "pydict \<Rightarrow> pyval \<Rightarrow> pyval option" where
  "dict_get [] k = None"
| "dict_get ((k', v) # kvs) k = (if key_norm k' = key_norm k then Some v else dict_get kvs k)"

text \<open>\<^verbatim>\<open>d[k] = v\<close>: an existing key keeps its place (and its key object), a new one goes last.\<close>

fun dict_set :: "pydict \<Rightarrow> pyval \<Rightarrow> pyval \<Rightarrow> pydict" where
  "dict_set [] k v = [(k, v)]"
| "dict_set ((k', v') # kvs) k v =
     (if key_norm k' = key_norm k then (k', v) # kvs else (k', v') # dict_set kvs k v)"

text \<open>\<^verbatim>\<open>d.pop(k, None)\<close>, the result dropped.\<close>

fun dict_pop :: "pydict \<Rightarrow> pyval \<Rightarrow> pydict" where
  "dict_pop [] k = []"
| "dict_pop ((k', v') # kvs) k =
     (if key_norm k' = key_norm k then kvs else (k', v') # dict_pop kvs k)"

text \<open>\<^verbatim>\<open>d.get(key, default)\<close> and \<^verbatim>\<open>key in d\<close> for a string key.\<close>

definition get_or :: "pydict \<Rightarrow> string \<Rightarrow> pyval \<Rightarrow> pyval" where
  "get_or d k dflt = (case dict_get d (PStr k) of None \<Rightarrow> dflt | Some v \<Rightarrow> v)"

definition has_key :: "pydict \<Rightarrow> string \<Rightarrow> bool" where
  "has_key d k = (dict_get d (PStr k) \<noteq> None)"

definition set_str :: "pydict \<Rightarrow> string \<Rightarrow> pyval \<Rightarrow> pydict" where
  "set_str d k v = dict_set d (PStr k) v"

subsection \<open>Strings\<close>

definition lower_char :: "char \<Rightarrow> char" where
  "lower_char c =
     (case map_of (zip ''ABCDEFGHIJKLMNOPQRSTUVWXYZ'' ''abcdefghijklmnopqrstuvwxyz'') c of
        None \<Rightarrow> c | Some l \<Rightarrow> l)"

definition lower :: "string \<Rightarrow> string" where
  "lower s = map lower_char s"

text \<open>\<^verbatim>\<open>x.lower()\<close> on an arbitrary value: only a \<^verbatim>\<open>str\<close> has the method.\<close>

definition py_lower :: "pyval \<Rightarrow> pyerr + string" where
  "py_lower v = (case v of PStr s \<Rightarrow> Inr (lower s)
                 | _ \<Rightarrow> Inl (AttributeError (type_name v) ''lower''))"

section \<open>Recommendation grouping\<close>

text \<open>
  \<^verbatim>\<open>ResultsRetriever._format_recommendations\<close>.  The local dictionary \<^verbatim>\<open>formatted\<close> is
  the state of the loop; the three fixed keys of \<^verbatim>\<open>formatted['by_priority']\<close> are three
  fields.  An exception raised in the loop body abandons the whole call.
\<close>

record formatted =
  high :: "pyval list"
  medium :: "pyval list"
  low :: "pyval list"
  by_department :: pydict
  immediate_actions :: "pyval list"

definition urgent_timelines :: "string list" where
  "urgent_timelines = [''immediate'', ''urgent'', ''24 hours'', ''within the next 2 weeks'']"

text \<open>\<^verbatim>\<open>if priority in formatted['by_priority']: formatted['by_priority'][priority].append(rec)\<close>\<close>

definition add_by_priority :: "string \<Rightarrow> pyval \<Rightarrow> formatted \<Rightarrow> formatted" where
  "add_by_priority priority rec f =
     (if priority = ''high'' then f\<lparr>high := high f @ [rec]\<rparr>
      else if priority = ''medium'' then f\<lparr>medium := medium f @ [rec]\<rparr>
      else if priority = ''low'' then f\<lparr>low := low f @ [rec]\<rparr>
      else f)"

text \<open>
  \<^verbatim>\<open>if department not in d: d[department] = []\<close> followed by
  \<^verbatim>\<open>d[department].append(rec)\<close>; the membership test hashes the key.
\<close>

definition add_by_department :: "pyval \<Rightarrow> pyval \<Rightarrow> pydict \<Rightarrow> pyerr + pydict" where
  "add_by_department department rec d =
     (if \<not> hashable department
      then Inl (TypeError (''unhashable type: '' @ [CHR 0x27] @ type_name department @ [CHR 0x27]))
      else (case dict_get d department of
              None \<Rightarrow> Inr (dict_set d department (PList [rec]))
            | Some (PList recs) \<Rightarrow> Inr (dict_set d department (PList (recs @ [rec])))
            | Some v \<Rightarrow> Inl (AttributeError (type_name v) ''append'')))"

text \<open>
  The test \<^verbatim>\<open>priority == 'high' or rec.get('timeline', '').lower() in [...]\<close>: the right
  operand is evaluated only when the left one is false.
\<close>

definition is_immediate :: "string \<Rightarrow> pydict \<Rightarrow> pyerr + bool" where
  "is_immediate priority r =
     (if priority = ''high'' then Inr True
      else (case py_lower (get_or r ''timeline'' (PStr '''')) of
              Inl e \<Rightarrow> Inl e
            | Inr t \<Rightarrow> Inr (t \<in> set urgent_timelines)))"

definition immediate_action :: "pydict \<Rightarrow> pyval \<Rightarrow> string \<Rightarrow> pyval" where
  "immediate_action r department priority =
     PDict [(PStr ''action'', get_or r ''action'' (PStr '''')),
            (PStr ''department'', department),
            (PStr ''timeline'', get_or r ''timeline'' (PStr '''')),
            (PStr ''priority'', PStr priority)]"

text \<open>One pass of the loop body \<^verbatim>\<open>for rec in recommendations\<close>.\<close>

definition rec_step :: "formatted \<Rightarrow> pyval \<Rightarrow> pyerr + formatted" where
  "rec_step f rec =
     (case rec of
        PDict r \<Rightarrow>
          (case py_lower (get_or r ''priority'' (PStr ''medium'')) of
             Inl e \<Rightarrow> Inl e
           | Inr priority \<Rightarrow>
               let department = get_or r ''department'' (PStr ''General'');
                   f1 = add_by_priority priority rec f
               in (case add_by_department department rec (by_department f1) of
                     Inl e \<Rightarrow> Inl e
                   | Inr d \<Rightarrow>
                       let f2 = f1\<lparr>by_department := d\<rparr>
                       in (case is_immediate priority r of
                             Inl e \<Rightarrow> Inl e
                           | Inr imm \<Rightarrow>
                               Inr (if imm
                                    then f2\<lparr>immediate_actions := immediate_actions f2 @
                                              [immediate_action r department priority]\<rparr>
                                    else f2))))
      | _ \<Rightarrow> Inl (AttributeError (type_name rec) ''get''))"

fun rec_loop :: "formatted \<Rightarrow> pyval list \<Rightarrow> pyerr + formatted" where
  "rec_loop f [] = Inr f"
| "rec_loop f (rec # recs) =
     (case rec_step f rec of Inl e \<Rightarrow> Inl e | Inr f' \<Rightarrow> rec_loop f' recs)"

definition formatted_init :: formatted where
  "formatted_init = \<lparr>high = [], medium = [], low = [], by_department = [], immediate_actions = []\<rparr>"

text \<open>The dictionary the call returns, from the final state of the loop.\<close>

definition formatted_dict :: "pyval \<Rightarrow> nat \<Rightarrow> formatted \<Rightarrow> pyval" where
  "formatted_dict recommendations n f =
     PDict [(PStr ''total_recommendations'', PInt (int n)),
            (PStr ''by_priority'',
               PDict [(PStr ''high'', PList (high f)),
                      (PStr ''medium'', PList (medium f)),
                      (PStr ''low'', PList (low f))]),
            (PStr ''by_department'', PDict (by_department f)),
            (PStr ''immediate_actions'', PList (immediate_actions f)),
            (PStr ''detailed_recommendations'', recommendations)]"

text \<open>
  \<^verbatim>\<open>len(x)\<close> and \<^verbatim>\<open>for rec in x\<close>: a list yields its items, a dictionary its keys, a
  string its characters; other values have no length.
\<close>

fun py_len :: "pyval \<Rightarrow> pyerr + nat" where
  "py_len (PList xs) = Inr (length xs)"
| "py_len (PDict kvs) = Inr (length kvs)"
| "py_len (PStr s) = Inr (length s)"
| "py_len v = Inl (TypeError (''object of type '' @ [CHR 0x27] @ type_name v @ [CHR 0x27] @ '' has no len()''))"

fun py_iter :: "pyval \<Rightarrow> pyval list" where
  "py_iter (PList xs) = xs"
| "py_iter (PDict kvs) = map fst kvs"
| "py_iter (PStr s) = map (\<lambda>c. PStr [c]) s"
| "py_iter v = []"

definition format_recommendations :: "pyval \<Rightarrow> pyerr + pyval" where
  "format_recommendations recommendations =
     (if \<not> truthy recommendations
      then Inr (PDict [(PStr ''message'', PStr ''No specific recommendations generated'')])
      else (case py_len recommendations of
              Inl e \<Rightarrow> Inl e
            | Inr n \<Rightarrow>
                (case rec_loop formatted_init (py_iter recommendations) of
                   Inl e \<Rightarrow> Inl e
                 | Inr f \<Rightarrow> Inr (formatted_dict recommendations n f))))"

section \<open>Response normalizer\<close>

text \<open>
  \<^verbatim>\<open>json.loads\<close> is a library function: the model takes it as a parameter \<open>loads\<close>, that
  gives for a text either the decoded document or the exception that \<^verbatim>\<open>json.loads\<close>
  raises on it: \<^verbatim>\<open>JSONDecodeError\<close> on a malformed text, but also \<^verbatim>\<open>RecursionError\<close> on
  a text nested deeper than the interpreter allows, and a plain \<^verbatim>\<open>ValueError\<close> on an
  integer literal with more digits than the interpreter converts.
\<close>

definition json_loads :: "(string \<Rightarrow> pyerr + pyval) \<Rightarrow> string \<Rightarrow> pyerr + pyval" where
  "json_loads loads s = loads s"

text \<open>
  \<^verbatim>\<open>if isinstance(analysis_str, str): return json.loads(analysis_str)\<close> followed by
  \<^verbatim>\<open>return analysis_str\<close>.
\<close>

definition loads_if_str :: "(string \<Rightarrow> pyerr + pyval) \<Rightarrow> pyval \<Rightarrow> pyerr + pyval" where
  "loads_if_str loads v = (case v of PStr s \<Rightarrow> json_loads loads s | _ \<Rightarrow> Inr v)"

text \<open>The body of the \<^verbatim>\<open>try\<close> block of \<^verbatim>\<open>_extract_analysis_data\<close>.\<close>

definition extract_try :: "(string \<Rightarrow> pyerr + pyval) \<Rightarrow> pydict \<Rightarrow> pyerr + pyval" where
  "extract_try loads record =
     (case dict_get record (PStr ''results'') of
        Some results \<Rightarrow>
          (case results of
             PDict rd \<Rightarrow>
               (case dict_get rd (PStr ''analysis'') of
                  Some analysis_str \<Rightarrow> loads_if_str loads analysis_str
                | None \<Rightarrow>
                    if has_key rd ''executive_summary'' then Inr results else Inr (PDict []))
           | PStr s \<Rightarrow> json_loads loads s
           | _ \<Rightarrow> Inr (PDict []))
      | None \<Rightarrow>
          (case dict_get record (PStr ''analysis'') of
             Some analysis_str \<Rightarrow> loads_if_str loads analysis_str
           | None \<Rightarrow> Inr (PDict [])))"

text \<open>
  \<^verbatim>\<open>except (json.JSONDecodeError, TypeError)\<close>: logged, and the payload is empty.  Any
  other exception of the body leaves the method.
\<close>

definition extract_analysis_data :: "(string \<Rightarrow> pyerr + pyval) \<Rightarrow> pydict \<Rightarrow> pyerr + pyval" where
  "extract_analysis_data loads record =
     (case extract_try loads record of
        Inl JSONDecodeError \<Rightarrow> Inr (PDict [])
      | Inl (TypeError m) \<Rightarrow> Inr (PDict [])
      | r \<Rightarrow> r)"

text \<open>\<^verbatim>\<open>_structure_analysis_results\<close>; \<^verbatim>\<open>analysis_data.get\<close> needs a dictionary.\<close>

definition structure_analysis_results :: "pyval \<Rightarrow> pyerr + pyval" where
  "structure_analysis_results analysis_data =
     (if \<not> truthy analysis_data
      then Inr (PDict [(PStr ''summary'', PStr ''Analysis results not available''),
                       (PStr ''error'', PStr ''No analysis data found'')])
      else (case analysis_data of
              PDict a \<Rightarrow>
                (case format_recommendations (get_or a ''actionable_recommendations'' (PList [])) of
                   Inl e \<Rightarrow> Inl e
                 | Inr recs \<Rightarrow>
                     Inr (PDict
                       [(PStr ''executive_summary'',
                           get_or a ''executive_summary'' (PStr ''Summary not available'')),
                        (PStr ''key_insights'',
                           PDict [(PStr ''main_points'', get_or a ''key_points'' (PList [])),
                                  (PStr ''customer_impact_assessment'',
                                     get_or a ''customer_impact'' (PStr ''Not assessed''))]),
                        (PStr ''actionable_recommendations'', recs),
                        (PStr ''analysis_confidence'',
                           PStr (if truthy (get_or a ''executive_summary'' PNone)
                                 then ''High'' else ''Low''))]))
            | _ \<Rightarrow> Inl (AttributeError (type_name analysis_data) ''get'')))"

definition status_messages :: pydict where
  "status_messages =
     [(PStr ''processing'', PStr ''Feedback is still being processed''),
      (PStr ''completed'', PStr ''Analysis completed successfully''),
      (PStr ''failed'', PStr ''Analysis failed - please try again''),
      (PStr ''not_found'', PStr ''Feedback ID not found'')]"

text \<open>\<^verbatim>\<open>self.status_messages.get(status, 'Analysis results available')\<close>: the key is hashed.\<close>

definition status_message :: "pyval \<Rightarrow> pyerr + pyval" where
  "status_message status =
     (if \<not> hashable status
      then Inl (TypeError (''unhashable type: '' @ [CHR 0x27] @ type_name status @ [CHR 0x27]))
      else (case dict_get status_messages status of
              None \<Rightarrow> Inr (PStr ''Analysis results available'')
            | Some m \<Rightarrow> Inr m))"

text \<open>
  \<^verbatim>\<open>_format_response\<close>.  \<open>ttl\<close> is \<^verbatim>\<open>int(os.environ.get('CACHE_TTL_SECONDS', 300))\<close>.
  \<^verbatim>\<open>record['feedback_id']\<close> raises \<^verbatim>\<open>KeyError\<close> on a record without the field.
\<close>

definition format_response :: "(string \<Rightarrow> pyerr + pyval) \<Rightarrow> int \<Rightarrow> pydict \<Rightarrow> pyerr + pyval" where
  "format_response loads ttl record =
     (let status = get_or record ''status'' (PStr ''completed'') in
      case dict_get record (PStr ''feedback_id'') of
        None \<Rightarrow> Inl (KeyError ''feedback_id'')
      | Some fid \<Rightarrow>
          (case status_message status of
             Inl e \<Rightarrow> Inl e
           | Inr message \<Rightarrow>
               let response =
                     [(PStr ''feedback_id'', fid),
                      (PStr ''status'', status),
                      (PStr ''message'', message),
                      (PStr ''created_at'', get_or record ''created_at'' PNone),
                      (PStr ''updated_at'', get_or record ''updated_at'' PNone),
                      (PStr ''processing_timestamp'', get_or record ''processing_timestamp'' PNone),
                      (PStr ''request_id'', get_or record ''request_id'' PNone),
                      (PStr ''original_data'', get_or record ''original_data'' (PDict [])),
                      (PStr ''cache_metadata'',
                         PDict [(PStr ''cacheable'', PBool (status = PStr ''completed'')),
                                (PStr ''cache_ttl'', PInt ttl)])]
               in if status = PStr ''processing''
                  then Inr (PDict (set_str response ''estimated_completion''
                                     (PStr ''Within 2-3 minutes'')))
                  else (case extract_analysis_data loads record of
                          Inl e \<Rightarrow> Inl e
                        | Inr analysis_data \<Rightarrow>
                            if truthy analysis_data
                            then (case structure_analysis_results analysis_data of
                                    Inl e \<Rightarrow> Inl e
                                  | Inr results \<Rightarrow>
                                      Inr (PDict
                                        (set_str
                                          (set_str (set_str response ''results'' results)
                                             ''status'' (PStr ''completed''))
                                          ''message''
                                          (get_or status_messages ''completed'' PNone))))
                            else Inr (PDict
                                   (set_str
                                     (set_str
                                       (set_str response ''status'' (PStr ''failed''))
                                       ''message''
                                       (PStr ''Analysis results not found or corrupted''))
                                     ''results'' (PDict []))))))"

text \<open>Reading a field of a response: \<^verbatim>\<open>response.get(key)\<close>.\<close>

definition field :: "pyval \<Rightarrow> string \<Rightarrow> pyval" where
  "field v k = (case v of PDict d \<Rightarrow> get_or d k PNone | _ \<Rightarrow> PNone)"

section \<open>JSON documents\<close>

text \<open>\<^verbatim>\<open>str(n)\<close> of an integer, and so of an integral \<^verbatim>\<open>Decimal\<close>.\<close>

fun str_nat :: "nat \<Rightarrow> string" where
  "str_nat n =
     (if n < 10 then [''0123456789'' ! n]
      else str_nat (n div 10) @ [''0123456789'' ! (n mod 10)])"

definition str_int :: "int \<Rightarrow> string" where
  "str_int i = (if i < 0 then CHR ''-'' # str_nat (nat (- i)) else str_nat (nat i))"

text \<open>
  \<^verbatim>\<open>json.dumps\<close> writes a key that is \<^verbatim>\<open>None\<close>, a \<^verbatim>\<open>bool\<close> or an \<^verbatim>\<open>int\<close> as a string and
  refuses any other key that is not a \<^verbatim>\<open>str\<close>; \<^verbatim>\<open>default=str\<close> applies to values only.
\<close>

fun json_key :: "pyval \<Rightarrow> pyerr + string" where
  "json_key (PStr s) = Inr s"
| "json_key PNone = Inr ''null''"
| "json_key (PBool b) = Inr (if b then ''true'' else ''false'')"
| "json_key (PInt n) = Inr (str_int n)"
| "json_key v = Inl (TypeError ''keys must be str, int, float, bool or None'')"

text \<open>The first exception wins.\<close>

fun collect :: "(pyerr + 'a) list \<Rightarrow> pyerr + 'a list" where
  "collect [] = Inr []"
| "collect (x # xs) =
     (case x of
        Inl e \<Rightarrow> Inl e
      | Inr v \<Rightarrow> (case collect xs of Inl e \<Rightarrow> Inl e | Inr vs \<Rightarrow> Inr (v # vs)))"

text \<open>
  \<open>json_doc data\<close> stands for the text \<^verbatim>\<open>json.dumps(data, default=str)\<close>: it is the value
  \<^verbatim>\<open>json.loads\<close> reads back from that text.  A \<^verbatim>\<open>Decimal\<close> is written as the string
  \<^verbatim>\<open>str\<close> gives; of two equal keys of an object the reader keeps the later value.
\<close>

fun json_doc :: "pyval \<Rightarrow> pyerr + pyval" where
  "json_doc (PDecimal n) = Inr (PStr (str_int n))"
| "json_doc (PList xs) =
     (case collect (map json_doc xs) of Inl e \<Rightarrow> Inl e | Inr ys \<Rightarrow> Inr (PList ys))"
| "json_doc (PDict kvs) =
     (case collect
             (map (\<lambda>kv. case json_key (fst kv) of
                           Inl e \<Rightarrow> Inl e
                         | Inr k \<Rightarrow>
                             (case json_doc (snd kv) of
                                Inl e \<Rightarrow> Inl e
                              | Inr v \<Rightarrow> Inr (PStr k, v)))
                  kvs) of
        Inl e \<Rightarrow> Inl e
      | Inr items \<Rightarrow> Inr (PDict (foldl (\<lambda>d kv. dict_set d (fst kv) (snd kv)) [] items)))"
| "json_doc v = Inr v"

section \<open>The stores\<close>

text \<open>
  The module's globals and the services behind them.
  \<^item> \<open>redis_available\<close> is \<^verbatim>\<open>REDIS_AVAILABLE\<close>, fixed at import time.
  \<^item> \<open>redis_faults\<close> schedules the calls on \<^verbatim>\<open>redis_client\<close>: each call takes the head
    of the list and raises when it is \<open>True\<close>; on the empty list no call fails.
  \<^item> \<open>redis_store\<close> maps a key to the document stored under it and its expiry time.
  \<^item> \<open>in_memory_cache\<close> maps a key to \<^verbatim>\<open>{'data': ..., 'expires_at': ...}\<close>.
  \<^item> \<open>cache_ttl\<close> is \<^verbatim>\<open>int(os.environ.get('CACHE_TTL_SECONDS', 300))\<close>.
  \<^item> \<open>now\<close> is the clock (\<^verbatim>\<open>time.time()\<close>), read as an integer; one public call reads
    one time.
  \<^item> \<open>db_fault\<close>, when \<open>Some m\<close>, makes \<^verbatim>\<open>state_table.query\<close> raise with text \<open>m\<close>.
  \<^item> \<open>state_table fid\<close> lists the records of key \<open>fid\<close>, the latest first.
  \<^item> \<open>db_queries\<close> counts the queries sent to the table.
\<close>

record world =
  redis_available :: bool
  redis_faults :: "bool list"
  redis_store :: "string \<Rightarrow> (pyval \<times> int) option"
  in_memory_cache :: "string \<Rightarrow> (pyval \<times> int) option"
  cache_ttl :: int
  now :: int
  db_fault :: "string option"
  state_table :: "string \<Rightarrow> pydict list"
  db_queries :: nat

definition redis_round_trip :: "world \<Rightarrow> bool \<times> world" where
  "redis_round_trip w =
     (case redis_faults w of [] \<Rightarrow> (False, w) | b # bs \<Rightarrow> (b, w\<lparr>redis_faults := bs\<rparr>))"

text \<open>What a store shows under a key at time \<open>t\<close>: an expired entry is gone.\<close>

definition live :: "(string \<Rightarrow> (pyval \<times> int) option) \<Rightarrow> int \<Rightarrow> string \<Rightarrow> pyval option" where
  "live store t key =
     (case store key of
        None \<Rightarrow> None
      | Some (data, expires_at) \<Rightarrow> if t < expires_at then Some data else None)"

definition redis_get :: "world \<Rightarrow> string \<Rightarrow> (pyerr + pyval option) \<times> world" where
  "redis_get w key =
     (case redis_round_trip w of
        (True, w') \<Rightarrow> (Inl (StoreError ''redis: connection error''), w')
      | (False, w') \<Rightarrow> (Inr (live (redis_store w') (now w') key), w'))"

text \<open>\<^verbatim>\<open>SETEX\<close> refuses an expiry time that is not positive.\<close>

definition redis_setex :: "world \<Rightarrow> string \<Rightarrow> int \<Rightarrow> pyval \<Rightarrow> (pyerr + unit) \<times> world" where
  "redis_setex w key ttl doc =
     (case redis_round_trip w of
        (True, w') \<Rightarrow> (Inl (StoreError ''redis: connection error''), w')
      | (False, w') \<Rightarrow>
          if ttl \<le> 0 then (Inl (StoreError ''redis: invalid expire time in setex''), w')
          else (Inr (), w'\<lparr>redis_store := (redis_store w')(key \<mapsto> (doc, now w' + ttl))\<rparr>))"

definition redis_delete :: "world \<Rightarrow> string \<Rightarrow> (pyerr + unit) \<times> world" where
  "redis_delete w key =
     (case redis_round_trip w of
        (True, w') \<Rightarrow> (Inl (StoreError ''redis: connection error''), w')
      | (False, w') \<Rightarrow> (Inr (), w'\<lparr>redis_store := (redis_store w')(key := None)\<rparr>))"

text \<open>
  \<^verbatim>\<open>state_table.query(KeyConditionExpression=..., ScanIndexForward=False, Limit=1)\<close>:
  the value of \<^verbatim>\<open>response['Items']\<close>.
\<close>

definition table_query :: "world \<Rightarrow> string \<Rightarrow> (pyerr + pydict list) \<times> world" where
  "table_query w fid =
     (let w' = w\<lparr>db_queries := Suc (db_queries w)\<rparr>
      in case db_fault w of
           Some m \<Rightarrow> (Inl (StoreError m), w')
         | None \<Rightarrow> (Inr (take 1 (state_table w fid)), w'))"

section \<open>CacheManager\<close>

definition get_cache_key :: "string \<Rightarrow> string" where
  "get_cache_key feedback_id = ''feedback_results:'' @ feedback_id"

text \<open>The body of the \<^verbatim>\<open>try\<close> block of \<^verbatim>\<open>CacheManager.get\<close>.\<close>

definition cm_get_try :: "world \<Rightarrow> string \<Rightarrow> (pyerr + pyval option) \<times> world" where
  "cm_get_try w feedback_id =
     (let cache_key = get_cache_key feedback_id in
      if redis_available w then redis_get w cache_key
      else (case in_memory_cache w cache_key of
              None \<Rightarrow> (Inr None, w)
            | Some (data, expires_at) \<Rightarrow>
                if now w < expires_at then (Inr (Some data), w)
                else (Inr None, w\<lparr>in_memory_cache := (in_memory_cache w)(cache_key := None)\<rparr>)))"

text \<open>\<^verbatim>\<open>except Exception\<close>: logged, and the answer is \<^verbatim>\<open>None\<close>.\<close>

definition cm_get :: "world \<Rightarrow> string \<Rightarrow> (pyerr + pyval option) \<times> world" where
  "cm_get w feedback_id =
     (case cm_get_try w feedback_id of
        (Inl e, w') \<Rightarrow> (Inr None, w')
      | (Inr r, w') \<Rightarrow> (Inr r, w'))"

text \<open>
  The body of the \<^verbatim>\<open>try\<close> block of \<^verbatim>\<open>CacheManager.set\<close>.  The argument
  \<^verbatim>\<open>json.dumps(data, default=str)\<close> is evaluated before \<^verbatim>\<open>setex\<close> is called.  The in-memory
  cache keeps the object \<^verbatim>\<open>data\<close> itself.
\<close>

definition cm_set_try :: "world \<Rightarrow> string \<Rightarrow> pyval \<Rightarrow> (pyerr + unit) \<times> world" where
  "cm_set_try w feedback_id data =
     (let cache_key = get_cache_key feedback_id in
      if redis_available w
      then (case json_doc data of
              Inl e \<Rightarrow> (Inl e, w)
            | Inr doc \<Rightarrow> redis_setex w cache_key (cache_ttl w) doc)
      else (Inr (),
            w\<lparr>in_memory_cache := (in_memory_cache w)(cache_key \<mapsto> (data, now w + cache_ttl w))\<rparr>))"

definition cm_set :: "world \<Rightarrow> string \<Rightarrow> pyval \<Rightarrow> (pyerr + bool) \<times> world" where
  "cm_set w feedback_id data =
     (case cm_set_try w feedback_id data of
        (Inl e, w') \<Rightarrow> (Inr False, w')
      | (Inr u, w') \<Rightarrow> (Inr True, w'))"

definition cm_invalidate_try :: "world \<Rightarrow> string \<Rightarrow> (pyerr + unit) \<times> world" where
  "cm_invalidate_try w feedback_id =
     (let cache_key = get_cache_key feedback_id in
      if redis_available w then redis_delete w cache_key
      else (Inr (), w\<lparr>in_memory_cache := (in_memory_cache w)(cache_key := None)\<rparr>))"

definition cm_invalidate :: "world \<Rightarrow> string \<Rightarrow> (pyerr + bool) \<times> world" where
  "cm_invalidate w feedback_id =
     (case cm_invalidate_try w feedback_id of
        (Inl e, w') \<Rightarrow> (Inr False, w')
      | (Inr u, w') \<Rightarrow> (Inr True, w'))"

section \<open>ResultsRetriever\<close>

text \<open>\<^verbatim>\<open>obj[key] = value\<close> for a string key: only a dictionary takes it.\<close>

definition py_setitem :: "pyval \<Rightarrow> string \<Rightarrow> pyval \<Rightarrow> pyerr + pyval" where
  "py_setitem obj k v =
     (case obj of
        PDict d \<Rightarrow> Inr (PDict (set_str d k v))
      | PList xs \<Rightarrow> Inl (TypeError ''list indices must be integers or slices, not str'')
      | _ \<Rightarrow> Inl (TypeError ([CHR 0x27] @ type_name obj @ [CHR 0x27] @
                               '' object does not support item assignment'')))"

text \<open>
  With the in-memory cache, \<^verbatim>\<open>cached_result\<close> is the very object the cache holds, so the
  two assignments to it change the cached entry as well.
\<close>

definition alias_update :: "world \<Rightarrow> string \<Rightarrow> pyval \<Rightarrow> world" where
  "alias_update w feedback_id v =
     (let cache_key = get_cache_key feedback_id in
      if redis_available w then w
      else (case in_memory_cache w cache_key of
              None \<Rightarrow> w
            | Some (data, expires_at) \<Rightarrow>
                w\<lparr>in_memory_cache := (in_memory_cache w)(cache_key \<mapsto> (v, expires_at))\<rparr>))"

definition not_found_result :: "string \<Rightarrow> pyval" where
  "not_found_result feedback_id =
     PDict [(PStr ''status'', PStr ''not_found''),
            (PStr ''message'', get_or status_messages ''not_found'' PNone),
            (PStr ''feedback_id'', PStr feedback_id),
            (PStr ''cache_hit'', PBool False),
            (PStr ''retrieved_from'', PStr ''database'')]"

definition error_result :: "pyerr \<Rightarrow> string \<Rightarrow> pyval" where
  "error_result e feedback_id =
     PDict [(PStr ''status'', PStr ''error''),
            (PStr ''message'', PStr (''Error retrieving results: '' @ exc_str e)),
            (PStr ''feedback_id'', PStr feedback_id),
            (PStr ''cache_hit'', PBool False),
            (PStr ''retrieved_from'', PStr ''error'')]"

text \<open>The body of the \<^verbatim>\<open>try\<close> block of \<^verbatim>\<open>get_feedback_results\<close>.\<close>

definition fetch_try ::
  "(string \<Rightarrow> pyerr + pyval) \<Rightarrow> world \<Rightarrow> string \<Rightarrow> bool \<Rightarrow> (pyerr + pyval) \<times> world" where
  "fetch_try loads w feedback_id use_cache =
     (case table_query w feedback_id of
        (Inl e, w1) \<Rightarrow> (Inl e, w1)
      | (Inr items, w1) \<Rightarrow>
          (case items of
             [] \<Rightarrow> (Inr (not_found_result feedback_id), w1)
           | record # rest \<Rightarrow>
               (case format_response loads (cache_ttl w1) record of
                  Inl e \<Rightarrow> (Inl e, w1)
                | Inr r0 \<Rightarrow>
                    (case py_setitem r0 ''cache_hit'' (PBool False) of
                       Inl e \<Rightarrow> (Inl e, w1)
                     | Inr r1 \<Rightarrow>
                         (case py_setitem r1 ''retrieved_from'' (PStr ''database'') of
                            Inl e \<Rightarrow> (Inl e, w1)
                          | Inr result \<Rightarrow>
                              if use_cache \<and> field result ''status'' = PStr ''completed''
                              then (case cm_set w1 feedback_id result of
                                      (Inl e, w2) \<Rightarrow> (Inl e, w2)
                                    | (Inr ok, w2) \<Rightarrow> (Inr result, w2))
                              else (Inr result, w1))))))"

text \<open>\<^verbatim>\<open>except Exception as e\<close>: logged, and turned into a result.\<close>

definition fetch ::
  "(string \<Rightarrow> pyerr + pyval) \<Rightarrow> world \<Rightarrow> string \<Rightarrow> bool \<Rightarrow> (pyerr + pyval) \<times> world" where
  "fetch loads w feedback_id use_cache =
     (case fetch_try loads w feedback_id use_cache of
        (Inl e, w') \<Rightarrow> (Inr (error_result e feedback_id), w')
      | (Inr r, w') \<Rightarrow> (Inr r, w'))"

text \<open>
  The cache answered with \<^verbatim>\<open>cached_result\<close>, a true value: the two assignments
  \<^verbatim>\<open>cached_result['cache_hit'] = True\<close> and \<^verbatim>\<open>cached_result['retrieved_from'] = 'cache'\<close>,
  outside any \<^verbatim>\<open>try\<close>, and the return.
\<close>

definition serve_cached :: "world \<Rightarrow> string \<Rightarrow> pyval \<Rightarrow> (pyerr + pyval) \<times> world" where
  "serve_cached w feedback_id cached_result =
     (case py_setitem cached_result ''cache_hit'' (PBool True) of
        Inl e \<Rightarrow> (Inl e, w)
      | Inr c1 \<Rightarrow>
          (case py_setitem c1 ''retrieved_from'' (PStr ''cache'') of
             Inl e \<Rightarrow> (Inl e, alias_update w feedback_id c1)
           | Inr c2 \<Rightarrow> (Inr c2, alias_update w feedback_id c2)))"

definition get_feedback_results ::
  "(string \<Rightarrow> pyerr + pyval) \<Rightarrow> world \<Rightarrow> string \<Rightarrow> bool \<Rightarrow> (pyerr + pyval) \<times> world" where
  "get_feedback_results loads w feedback_id use_cache =
     (if use_cache
      then (case cm_get w feedback_id of
              (Inl e, w1) \<Rightarrow> (Inl e, w1)
            | (Inr None, w1) \<Rightarrow> fetch loads w1 feedback_id use_cache
            | (Inr (Some cached_result), w1) \<Rightarrow>
                if truthy cached_result then serve_cached w1 feedback_id cached_result
                else fetch loads w1 feedback_id use_cache)
      else fetch loads w feedback_id use_cache)"

definition invalidate_cache :: "world \<Rightarrow> string \<Rightarrow> (pyerr + bool) \<times> world" where
  "invalidate_cache w feedback_id = cm_invalidate w feedback_id"

section \<open>Notions of the specification\<close>

text \<open>A field of the result of a call, when the call returned.\<close>

definition result_field :: "pyerr + pyval \<Rightarrow> string \<Rightarrow> pyval option" where
  "result_field r k = (case r of Inl e \<Rightarrow> None | Inr v \<Rightarrow> Some (field v k))"

definition is_str :: "pyval \<Rightarrow> bool" where
  "is_str v = (case v of PStr s \<Rightarrow> True | _ \<Rightarrow> False)"

definition is_dict :: "pyval \<Rightarrow> bool" where
  "is_dict v = (case v of PDict d \<Rightarrow> True | _ \<Rightarrow> False)"

text \<open>
  A recommendation as the specification describes it: a mapping whose \<^verbatim>\<open>priority\<close> and
  \<^verbatim>\<open>timeline\<close>, when present, are strings and whose \<^verbatim>\<open>department\<close>, when present, is a
  scalar.
\<close>

definition recommendation_item :: "pyval \<Rightarrow> bool" where
  "recommendation_item rec =
     (case rec of
        PDict r \<Rightarrow> is_str (get_or r ''priority'' (PStr ''medium''))
                 \<and> hashable (get_or r ''department'' (PStr ''General''))
                 \<and> is_str (get_or r ''timeline'' (PStr []))
      | _ \<Rightarrow> False)"

definition bucket_total :: "formatted \<Rightarrow> nat" where
  "bucket_total f = length (high f) + length (medium f) + length (low f)"

definition lists_only :: "pydict \<Rightarrow> bool" where
  "lists_only d = list_all (\<lambda>kv. case snd kv of PList xs \<Rightarrow> True | _ \<Rightarrow> False) d"

text \<open>
  An analysis payload as the specification describes it: a mapping whose
  \<^verbatim>\<open>actionable_recommendations\<close>, when present and not empty, is a list of recommendations.
\<close>

definition recommendations_ok :: "pyval \<Rightarrow> bool" where
  "recommendations_ok v =
     (if truthy v then (case v of PList recs \<Rightarrow> list_all recommendation_item recs | _ \<Rightarrow> False)
      else True)"

definition analysis_payload :: "pyval \<Rightarrow> bool" where
  "analysis_payload v =
     (case v of
        PDict a \<Rightarrow> recommendations_ok (get_or a ''actionable_recommendations'' (PList []))
      | _ \<Rightarrow> False)"

text \<open>The store behind the cache manager, and the entry it holds for a feedback id.\<close>

definition backing_store :: "world \<Rightarrow> string \<Rightarrow> (pyval \<times> int) option" where
  "backing_store w = (if redis_available w then redis_store w else in_memory_cache w)"

definition cached :: "world \<Rightarrow> string \<Rightarrow> pyval option" where
  "cached w feedback_id = live (backing_store w) (now w) (get_cache_key feedback_id)"

text \<open>The next call on \<^verbatim>\<open>redis_client\<close>, if the cache manager makes one, does not fail.\<close>

definition redis_ok :: "world \<Rightarrow> bool" where
  "redis_ok w =
     (if redis_available w then (case redis_faults w of [] \<Rightarrow> True | b # bs \<Rightarrow> \<not> b) else True)"

text \<open>
  What the cache keeps of a response: the response itself in memory, its JSON document in
  Redis (nothing when it cannot be written as JSON).
\<close>

definition cached_form :: "world \<Rightarrow> pyval \<Rightarrow> pyval option" where
  "cached_form w r =
     (if redis_available w
      then (case json_doc r of Inl e \<Rightarrow> None | Inr doc \<Rightarrow> Some doc)
      else Some r)"

text \<open>Every value the cache holds is a dictionary, as all the values that \<^verbatim>\<open>set\<close> stores are.\<close>

definition cache_holds_dicts :: "world \<Rightarrow> bool" where
  "cache_holds_dicts w =
     (\<forall>key v t. backing_store w key = Some (v, t) \<longrightarrow> is_dict v)"

text \<open>The cache is derived from the table: it holds entries only for ids that have a record.\<close>

definition cache_coherent :: "world \<Rightarrow> bool" where
  "cache_coherent w =
     (\<forall>fid v t. backing_store w (get_cache_key fid) = Some (v, t) \<longrightarrow> state_table w fid \<noteq> [])"


text \<open>The stored status of a record, as \<^verbatim>\<open>_format_response\<close> reads it.\<close>

definition stored_status :: "pydict \<Rightarrow> pyval" where
  "stored_status record = get_or record ''status'' (PStr ''completed'')"

text \<open>
  The answer of a fetch from the table, as a function of the table alone: the result that
  the \<^verbatim>\<open>try\<close> block of \<^verbatim>\<open>get_feedback_results\<close> builds, or the error result of its
  \<^verbatim>\<open>except\<close> clause.
\<close>

definition fetch_answer :: "(string \<Rightarrow> pyerr + pyval) \<Rightarrow> world \<Rightarrow> string \<Rightarrow> pyval" where
  "fetch_answer loads w feedback_id =
     (case db_fault w of
        Some m \<Rightarrow> error_result (StoreError m) feedback_id
      | None \<Rightarrow>
          (case take 1 (state_table w feedback_id) of
             [] \<Rightarrow> not_found_result feedback_id
           | record # rest \<Rightarrow>
               (case format_response loads (cache_ttl w) record of
                  Inl e \<Rightarrow> error_result e feedback_id
                | Inr r0 \<Rightarrow>
                    (case py_setitem r0 ''cache_hit'' (PBool False) of
                       Inl e \<Rightarrow> error_result e feedback_id
                     | Inr r1 \<Rightarrow>
                         (case py_setitem r1 ''retrieved_from'' (PStr ''database'') of
                            Inl e \<Rightarrow> error_result e feedback_id
                          | Inr result \<Rightarrow> result)))))"

text \<open>The world after the query of a fetch.\<close>

definition queried :: "world \<Rightarrow> world" where
  "queried w = w\<lparr>db_queries := Suc (db_queries w)\<rparr>"

text \<open>
  A process that has just started: nothing cached, an empty table, the default TTL.  The
  argument tells whether the Redis client is the backend.
\<close>

definition fresh_world :: "bool \<Rightarrow> world" where
  "fresh_world redis =
     \<lparr>redis_available = redis, redis_faults = [], redis_store = (\<lambda>key. None),
      in_memory_cache = (\<lambda>key. None), cache_ttl = 300, now = 1000, db_fault = None,
      state_table = (\<lambda>fid. []), db_queries = 0\<rparr>"

text \<open>
  A value that JSON carries unchanged: no \<^verbatim>\<open>Decimal\<close> inside, and every dictionary has
  string keys, each once.
\<close>

fun json_native :: "pyval \<Rightarrow> bool" where
  "json_native (PDecimal n) = False"
| "json_native (PList xs) = list_all json_native xs"
| "json_native (PDict kvs) =
     (list_all (\<lambda>kv. is_str (fst kv) \<and> json_native (snd kv)) kvs \<and> distinct (map fst kvs))"
| "json_native v = True"

text \<open>A fresh process whose table holds one record under one id.\<close>

definition table_with :: "bool \<Rightarrow> string \<Rightarrow> pydict \<Rightarrow> world" where
  "table_with redis fid rcd =
     (fresh_world redis)\<lparr>state_table := (\<lambda>f. if f = fid then [rcd] else [])\<rparr>"

text \<open>The record of the specification's scenario ``cache miss then hit''.\<close>

definition scenario_record :: pydict where
  "scenario_record =
     [(PStr ''feedback_id'', PStr ''A1''),
      (PStr ''status'', PStr ''completed''),
      (PStr ''results'',
         PDict [(PStr ''analysis'',
                   PDict [(PStr ''executive_summary'', PStr ''Good''),
                          (PStr ''key_points'', PList [PStr ''x'']),
                          (PStr ''actionable_recommendations'', PList []),
                          (PStr ''customer_impact'', PStr ''low'')])])]"

text \<open>The response to the first call of that scenario.\<close>

definition scenario_response :: pyval where
  "scenario_response =
     PDict
        [(PStr ''feedback_id'', PStr ''A1''),
         (PStr ''status'', PStr ''completed''),
         (PStr ''message'', PStr ''Analysis completed successfully''),
         (PStr ''created_at'', PNone), (PStr ''updated_at'', PNone),
         (PStr ''processing_timestamp'', PNone),
         (PStr ''request_id'', PNone), (PStr ''original_data'', PDict []),
         (PStr ''cache_metadata'',
          PDict [(PStr ''cacheable'', PBool True), (PStr ''cache_ttl'', PInt 300)]),
         (PStr ''results'',
          PDict
           [(PStr ''executive_summary'', PStr ''Good''),
            (PStr ''key_insights'',
             PDict [(PStr ''main_points'', PList [PStr ''x'']),
                    (PStr ''customer_impact_assessment'', PStr ''low'')]),
            (PStr ''actionable_recommendations'',
             PDict [(PStr ''message'', PStr ''No specific recommendations generated'')]),
            (PStr ''analysis_confidence'', PStr ''High'')]),
         (PStr ''cache_hit'', PBool False),
         (PStr ''retrieved_from'', PStr ''database'')]"

text \<open>A record as \<^verbatim>\<open>user_agent.py\<close> stores it at submission.\<close>

definition processing_record :: pydict where
  "processing_record =
     [(PStr ''feedback_id'', PStr ''B2''), (PStr ''status'', PStr ''processing'')]"

text \<open>A record stored as \<^verbatim>\<open>completed\<close> that carries no analysis payload.\<close>

definition unpayloaded_record :: pydict where
  "unpayloaded_record =
     [(PStr ''feedback_id'', PStr ''A1''), (PStr ''status'', PStr ''completed'')]"

text \<open>
  A record in the nested-object shape whose payload holds a DynamoDB number, the response to
  the first call for it, and the JSON document of that response.
\<close>

definition decimal_record :: pydict where
  "decimal_record =
     [(PStr ''feedback_id'', PStr ''A1''),
      (PStr ''status'', PStr ''completed''),
      (PStr ''results'',
         PDict [(PStr ''analysis'',
                   PDict [(PStr ''executive_summary'', PStr ''Good''),
                          (PStr ''key_points'', PList [PDecimal 3])])])]"

definition decimal_response :: "pyval \<Rightarrow> pyval" where
  "decimal_response point =
     PDict
        [(PStr ''feedback_id'', PStr ''A1''),
         (PStr ''status'', PStr ''completed''),
         (PStr ''message'', PStr ''Analysis completed successfully''),
         (PStr ''created_at'', PNone), (PStr ''updated_at'', PNone),
         (PStr ''processing_timestamp'', PNone),
         (PStr ''request_id'', PNone), (PStr ''original_data'', PDict []),
         (PStr ''cache_metadata'',
          PDict [(PStr ''cacheable'', PBool True), (PStr ''cache_ttl'', PInt 300)]),
         (PStr ''results'',
          PDict
           [(PStr ''executive_summary'', PStr ''Good''),
            (PStr ''key_insights'',
             PDict [(PStr ''main_points'', PList [point]),
                    (PStr ''customer_impact_assessment'', PStr ''Not assessed'')]),
            (PStr ''actionable_recommendations'',
             PDict [(PStr ''message'', PStr ''No specific recommendations generated'')]),
            (PStr ''analysis_confidence'', PStr ''High'')]),
         (PStr ''cache_hit'', PBool False),
         (PStr ''retrieved_from'', PStr ''database'')]"

section \<open>Properties of the recommendation grouping\<close>

lemma add_by_priority_total: "bucket_total (add_by_priority p rec f) \<le> Suc (bucket_total f)"
  by (simp add: add_by_priority_def bucket_total_def)

lemma add_by_priority_department: "by_department (add_by_priority p rec f) = by_department f"
  by (simp add: add_by_priority_def)

lemma rec_step_total:
  "rec_step f rec = Inr f' \<Longrightarrow> bucket_total f' \<le> Suc (bucket_total f)"
  by (auto simp: rec_step_def Let_def bucket_total_def add_by_priority_def
           split: pyval.splits sum.splits if_splits)

lemma rec_loop_total:
  "rec_loop f recs = Inr f' \<Longrightarrow> bucket_total f' \<le> bucket_total f + length recs"
proof (induction recs arbitrary: f)
  case Nil
  then show ?case by simp
next
  case (Cons rec recs)
  from Cons.prems obtain f1 where s: "rec_step f rec = Inr f1" and l: "rec_loop f1 recs = Inr f'"
    by (auto split: sum.splits)
  from rec_step_total [OF s] Cons.IH [OF l] show ?case by simp
qed

lemma dict_get_lists: "lists_only d \<Longrightarrow> dict_get d k = Some v \<Longrightarrow> \<exists>xs. v = PList xs"
  by (induction d) (auto simp: lists_only_def split: if_splits pyval.splits)

lemma dict_set_lists: "lists_only d \<Longrightarrow> lists_only (dict_set d k (PList xs))"
  by (induction d) (auto simp: lists_only_def)

lemma add_by_department_ok:
  assumes "lists_only d" and "hashable dep"
  shows "\<exists>d'. add_by_department dep rec d = Inr d' \<and> lists_only d'"
proof (cases "dict_get d dep")
  case None
  with assms show ?thesis by (simp add: add_by_department_def dict_set_lists)
next
  case (Some v)
  from dict_get_lists [OF assms(1) Some] obtain xs where "v = PList xs" ..
  with Some assms show ?thesis by (simp add: add_by_department_def dict_set_lists)
qed

lemma rec_step_ok:
  assumes "recommendation_item rec" and "lists_only (by_department f)"
  shows "\<exists>f'. rec_step f rec = Inr f' \<and> lists_only (by_department f')"
proof -
  from assms(1) obtain r p t where r: "rec = PDict r"
    and p: "get_or r ''priority'' (PStr ''medium'') = PStr p"
    and h: "hashable (get_or r ''department'' (PStr ''General''))"
    and t: "get_or r ''timeline'' (PStr []) = PStr t"
    by (auto simp: recommendation_item_def is_str_def split: pyval.splits)
  from add_by_department_ok [OF _ h, of "by_department f" rec] assms(2)
  obtain d' where d: "add_by_department (get_or r ''department'' (PStr ''General'')) rec
                        (by_department f) = Inr d'"
    and l: "lists_only d'" by blast
  show ?thesis
    using r p t d l
    by (simp add: rec_step_def py_lower_def is_immediate_def Let_def add_by_priority_department)
qed

lemma rec_loop_ok:
  "list_all recommendation_item recs \<Longrightarrow> lists_only (by_department f) \<Longrightarrow>
   \<exists>f'. rec_loop f recs = Inr f'"
proof (induction recs arbitrary: f)
  case Nil
  then show ?case by simp
next
  case (Cons rec recs)
  then obtain f1 where "rec_step f rec = Inr f1" "lists_only (by_department f1)"
    using rec_step_ok [of rec f] by auto
  with Cons show ?case by auto
qed

lemma format_recommendations_empty:
  "format_recommendations (PList []) =
     Inr (PDict [(PStr ''message'', PStr ''No specific recommendations generated'')])"
  by (simp add: format_recommendations_def)

lemma format_recommendations_returns:
  assumes "list_all recommendation_item recs"
  shows "\<exists>out. format_recommendations (PList recs) = Inr out"
proof -
  have "lists_only (by_department formatted_init)"
    by (simp add: formatted_init_def lists_only_def)
  from rec_loop_ok [OF assms this] obtain f where "rec_loop formatted_init recs = Inr f" ..
  then show ?thesis by (simp add: format_recommendations_def)
qed

lemma format_recommendations_shape:
  assumes "recs \<noteq> []" and "format_recommendations (PList recs) = Inr out"
  shows "\<exists>f. rec_loop formatted_init recs = Inr f
            \<and> out = formatted_dict (PList recs) (length recs) f"
  using assms by (auto simp: format_recommendations_def split: sum.splits)

lemma formatted_dict_fields:
  "field (formatted_dict r n f) ''total_recommendations'' = PInt (int n)"
  "field (formatted_dict r n f) ''detailed_recommendations'' = r"
  "field (formatted_dict r n f) ''by_priority'' =
     PDict [(PStr ''high'', PList (high f)), (PStr ''medium'', PList (medium f)),
            (PStr ''low'', PList (low f))]"
  by (simp_all add: formatted_dict_def field_def get_or_def)

text \<open>
  C9.  For a non-empty list of recommendations on which the grouping returns,
  \<^verbatim>\<open>total_recommendations\<close> is the length of the input, \<^verbatim>\<open>detailed_recommendations\<close> is the
  input itself, and the three priority buckets hold together at most as many items as the
  input.  The empty list yields the message instead of the grouped structure.  On a list
  of recommendations (mappings with string priority and timeline) the grouping does
  return.
\<close>

theorem format_recommendations_grouping:
  "format_recommendations (PList []) =
     Inr (PDict [(PStr ''message'', PStr ''No specific recommendations generated'')])
   \<and> (recs \<noteq> [] \<and> format_recommendations (PList recs) = Inr out \<longrightarrow>
        field out ''total_recommendations'' = PInt (int (length recs))
      \<and> field out ''detailed_recommendations'' = PList recs
      \<and> (\<exists>h m l. field out ''by_priority'' =
                     PDict [(PStr ''high'', PList h), (PStr ''medium'', PList m),
                            (PStr ''low'', PList l)]
                 \<and> length h + length m + length l \<le> length recs))
   \<and> (list_all recommendation_item recs \<longrightarrow>
        (\<exists>res. format_recommendations (PList recs) = Inr res))"
proof (intro conjI impI)
  show "format_recommendations (PList []) =
          Inr (PDict [(PStr ''message'', PStr ''No specific recommendations generated'')])"
    by (rule format_recommendations_empty)
next
  assume a: "recs \<noteq> [] \<and> format_recommendations (PList recs) = Inr out"
  then obtain f where l: "rec_loop formatted_init recs = Inr f"
    and o: "out = formatted_dict (PList recs) (length recs) f"
    using format_recommendations_shape by blast
  show "field out ''total_recommendations'' = PInt (int (length recs))"
    by (simp add: o formatted_dict_fields)
  show "field out ''detailed_recommendations'' = PList recs"
    by (simp add: o formatted_dict_fields)
  have "bucket_total f \<le> length recs"
    using rec_loop_total [OF l] by (simp add: bucket_total_def formatted_init_def)
  then show "\<exists>h m l. field out ''by_priority'' =
                     PDict [(PStr ''high'', PList h), (PStr ''medium'', PList m),
                            (PStr ''low'', PList l)]
                 \<and> length h + length m + length l \<le> length recs"
    by (simp add: o formatted_dict_fields bucket_total_def)
next
  assume "list_all recommendation_item recs"
  then show "\<exists>res. format_recommendations (PList recs) = Inr res"
    by (rule format_recommendations_returns)
qed

theorem format_recommendations_grouping_witness:
  "list_all recommendation_item
     [PDict [(PStr ''action'', PStr ''call''), (PStr ''priority'', PStr ''High'')],
      PDict [(PStr ''priority'', PStr ''someday''), (PStr ''timeline'', PStr ''24 Hours'')]]
   \<and> (\<exists>res. format_recommendations (PList
         [PDict [(PStr ''action'', PStr ''call''), (PStr ''priority'', PStr ''High'')],
          PDict [(PStr ''priority'', PStr ''someday''), (PStr ''timeline'', PStr ''24 Hours'')]])
         = Inr res
       \<and> field res ''total_recommendations'' = PInt 2
       \<and> field res ''detailed_recommendations'' = PList
         [PDict [(PStr ''action'', PStr ''call''), (PStr ''priority'', PStr ''High'')],
          PDict [(PStr ''priority'', PStr ''someday''), (PStr ''timeline'', PStr ''24 Hours'')]])"
proof -
  let ?recs = "[PDict [(PStr ''action'', PStr ''call''), (PStr ''priority'', PStr ''High'')],
      PDict [(PStr ''priority'', PStr ''someday''), (PStr ''timeline'', PStr ''24 Hours'')]]"
  have wf: "list_all recommendation_item ?recs"
    by (simp add: recommendation_item_def is_str_def get_or_def)
  from format_recommendations_grouping [of ?recs] wf
  obtain res where r: "format_recommendations (PList ?recs) = Inr res" by blast
  from format_recommendations_grouping [of ?recs res] r
  have "field res ''total_recommendations'' = PInt 2
      \<and> field res ''detailed_recommendations'' = PList ?recs" by simp
  with wf r show ?thesis by blast
qed

section \<open>Properties of the response normalizer\<close>

lemma dict_get_set_same: "dict_get (dict_set d k v) k = Some v"
  by (induction d) auto

lemma dict_get_set_other:
  "key_norm k' \<noteq> key_norm k \<Longrightarrow> dict_get (dict_set d k v) k' = dict_get d k'"
  by (induction d) auto

lemma get_or_set_same: "get_or (set_str d k v) k x = v"
  by (simp add: get_or_def set_str_def dict_get_set_same)

lemma get_or_set_other: "k' \<noteq> k \<Longrightarrow> get_or (set_str d k v) k' x = get_or d k' x"
  by (simp add: get_or_def set_str_def dict_get_set_other)

lemma field_set_same: "field (PDict (set_str d k v)) k = v"
  by (simp add: field_def get_or_set_same)

lemma field_set_other: "k' \<noteq> k \<Longrightarrow> field (PDict (set_str d k v)) k' = field (PDict d) k'"
  by (simp add: field_def get_or_set_other)

lemma extract_analysis_data_uncaught:
  "extract_analysis_data loads record = Inl e \<Longrightarrow>
   extract_try loads record = Inl e \<and> e \<noteq> JSONDecodeError \<and> (\<forall>m. e \<noteq> TypeError m)"
  by (cases "extract_try loads record")
     (auto simp: extract_analysis_data_def split: pyerr.splits)


lemma status_message_returns: "hashable s \<Longrightarrow> \<exists>m. status_message s = Inr m"
  by (cases "dict_get status_messages s") (simp_all add: status_message_def)



lemma format_response_completed:
  assumes st: "get_or record ''status'' (PStr ''completed'') \<noteq> PStr ''processing''"
    and ex: "extract_analysis_data loads record = Inr payload"
    and tr: "truthy payload"
    and r: "format_response loads ttl record = Inr r"
  shows "field r ''status'' = PStr ''completed''
       \<and> field r ''message'' = PStr ''Analysis completed successfully''
       \<and> Inr (field r ''results'') = structure_analysis_results payload"
  using assms
  by (auto simp: format_response_def Let_def field_set_same field_set_other
        status_messages_def get_or_def[of "[_,_,_,_]"]
        split: option.splits sum.splits)

lemma structure_analysis_results_returns:
  assumes "analysis_payload payload" and "truthy payload"
  shows "\<exists>res. structure_analysis_results payload = Inr res"
proof -
  from assms(1) obtain a where a: "payload = PDict a"
    and ok: "recommendations_ok (get_or a ''actionable_recommendations'' (PList []))"
    by (auto simp: analysis_payload_def split: pyval.splits)
  let ?v = "get_or a ''actionable_recommendations'' (PList [])"
  have "\<exists>out. format_recommendations ?v = Inr out"
  proof (cases "truthy ?v")
    case False
    then show ?thesis by (simp add: format_recommendations_def)
  next
    case True
    with ok obtain recs where v: "?v = PList recs" and wf: "list_all recommendation_item recs"
      by (auto simp: recommendations_ok_def split: pyval.splits)
    from format_recommendations_returns [OF wf] v show ?thesis by simp
  qed
  then obtain out where "format_recommendations ?v = Inr out" ..
  with a assms(2) show ?thesis by (simp add: structure_analysis_results_def)
qed

lemma format_response_returns:
  assumes fid: "dict_get record (PStr ''feedback_id'') = Some fid"
    and hs: "hashable (get_or record ''status'' (PStr ''completed''))"
    and ex: "extract_analysis_data loads record = Inr payload"
    and ok: "truthy payload \<longrightarrow> analysis_payload payload"
  shows "\<exists>r. format_response loads ttl record = Inr r"
proof -
  from status_message_returns [OF hs]
  obtain m where m: "status_message (get_or record ''status'' (PStr ''completed'')) = Inr m" ..
  show ?thesis
  proof (cases "truthy payload")
    case False
    with fid m ex show ?thesis by (simp add: format_response_def Let_def)
  next
    case True
    with ok structure_analysis_results_returns obtain res
      where "structure_analysis_results payload = Inr res" by blast
    with True fid m ex show ?thesis by (simp add: format_response_def Let_def)
  qed
qed



text \<open>
  C10.  For every stored record whose stored status is not \<^verbatim>\<open>processing\<close> and from which
  a true (non-empty) payload is extracted, the response the normalizer returns has status
  \<^verbatim>\<open>completed\<close> and the message \<^verbatim>\<open>Analysis completed successfully\<close>, whatever the stored
  status is; so a record stored as \<^verbatim>\<open>failed\<close> with a payload passes the test
  \<^verbatim>\<open>result.get('status') == 'completed'\<close> that guards the cache write.  When the record
  has its id, a scalar status and a payload that is an analysis mapping, the normalizer
  does return.
\<close>

theorem format_response_payload_completed:
  assumes "stored_status record \<noteq> PStr ''processing''"
    and "extract_analysis_data loads record = Inr payload"
    and "truthy payload"
  shows "(format_response loads ttl record = Inr r \<longrightarrow>
            field r ''status'' = PStr ''completed''
          \<and> field r ''message'' = PStr ''Analysis completed successfully'')
       \<and> (dict_get record (PStr ''feedback_id'') = Some fid
            \<and> hashable (stored_status record) \<and> analysis_payload payload \<longrightarrow>
            (\<exists>res. format_response loads ttl record = Inr res))"
proof -
  have completed: "format_response loads ttl record = Inr r \<longrightarrow>
            field r ''status'' = PStr ''completed''
          \<and> field r ''message'' = PStr ''Analysis completed successfully''"
    using format_response_completed [OF _ assms(2,3), of ttl r] assms(1)
    by (simp add: stored_status_def)
  have total: "dict_get record (PStr ''feedback_id'') = Some fid
            \<and> hashable (stored_status record) \<and> analysis_payload payload \<longrightarrow>
            (\<exists>res. format_response loads ttl record = Inr res)"
    using format_response_returns [of "record" fid loads payload ttl] assms(2)
    by (simp add: stored_status_def)
  from completed total show ?thesis by (rule conjI)
qed

theorem format_response_payload_completed_witness:
  "stored_status
     [(PStr ''feedback_id'', PStr ''A1''), (PStr ''status'', PStr ''failed''),
      (PStr ''results'', PDict [(PStr ''analysis'',
          PDict [(PStr ''executive_summary'', PStr ''Good'')])])] = PStr ''failed''
   \<and> result_field
       (format_response (\<lambda>s. Inl JSONDecodeError) 300
         [(PStr ''feedback_id'', PStr ''A1''), (PStr ''status'', PStr ''failed''),
          (PStr ''results'', PDict [(PStr ''analysis'',
              PDict [(PStr ''executive_summary'', PStr ''Good'')])])])
       ''status'' = Some (PStr ''completed'')"
proof -
  let ?rec = "[(PStr ''feedback_id'', PStr ''A1''), (PStr ''status'', PStr ''failed''),
      (PStr ''results'', PDict [(PStr ''analysis'',
          PDict [(PStr ''executive_summary'', PStr ''Good'')])])]"
  let ?payload = "PDict [(PStr ''executive_summary'', PStr ''Good'')]"
  have s: "stored_status ?rec = PStr ''failed''" by (simp add: stored_status_def get_or_def)
  then have a: "stored_status ?rec \<noteq> PStr ''processing''" by simp
  have b: "extract_analysis_data (\<lambda>s. Inl JSONDecodeError) ?rec = Inr ?payload"
    by (simp add: extract_analysis_data_def extract_try_def loads_if_str_def)
  have c: "truthy ?payload" by simp
  have d: "dict_get ?rec (PStr ''feedback_id'') = Some (PStr ''A1'')
            \<and> hashable (stored_status ?rec) \<and> analysis_payload ?payload"
    by (simp add: s analysis_payload_def recommendations_ok_def get_or_def)
  from format_response_payload_completed [OF a b c, where ttl = 300 and fid = "PStr ''A1''"] d
  obtain res where r: "format_response (\<lambda>s. Inl JSONDecodeError) 300 ?rec = Inr res" by blast
  from format_response_payload_completed [OF a b c, where ttl = 300 and r = res] r
  have "field res ''status'' = PStr ''completed''" by simp
  with s r show ?thesis by (simp add: result_field_def)
qed

section \<open>Properties of the cache manager\<close>

lemma redis_round_trip_cases:
  "redis_round_trip w = (False, w) \<and> redis_faults w = []
   \<or> (\<exists>b bs. redis_faults w = b # bs \<and> redis_round_trip w = (b, w\<lparr>redis_faults := bs\<rparr>))"
  by (cases "redis_faults w") (simp_all add: redis_round_trip_def)

lemma cm_get_returns: "\<exists>r. fst (cm_get w fid) = Inr r"
  by (cases "cm_get_try w fid") (auto simp: cm_get_def split: sum.splits)

lemma cm_set_returns: "\<exists>b. fst (cm_set w fid data) = Inr b"
  by (cases "cm_set_try w fid data") (auto simp: cm_set_def split: sum.splits)

lemma cm_invalidate_returns: "\<exists>b. fst (cm_invalidate w fid) = Inr b"
  by (cases "cm_invalidate_try w fid") (auto simp: cm_invalidate_def split: sum.splits)

lemma cm_get_caught: "fst (cm_get_try w fid) = Inl e \<Longrightarrow> fst (cm_get w fid) = Inr None"
  by (cases "cm_get_try w fid") (auto simp: cm_get_def)

lemma cm_set_caught: "fst (cm_set_try w fid data) = Inl e \<Longrightarrow> fst (cm_set w fid data) = Inr False"
  by (cases "cm_set_try w fid data") (auto simp: cm_set_def)

lemma not_redis_ok:
  "\<not> redis_ok w \<Longrightarrow> redis_available w \<and> (\<exists>bs. redis_faults w = True # bs)"
  by (auto simp: redis_ok_def split: if_splits list.splits)

lemma cm_get_fault: "\<not> redis_ok w \<Longrightarrow> fst (cm_get w fid) = Inr None"
  by (drule not_redis_ok)
     (auto simp: cm_get_def cm_get_try_def redis_get_def redis_round_trip_def Let_def)

lemma cm_set_fault: "\<not> redis_ok w \<Longrightarrow> fst (cm_set w fid data) = Inr False"
  by (drule not_redis_ok)
     (auto simp: cm_set_def cm_set_try_def redis_setex_def redis_round_trip_def Let_def
           split: sum.splits)

lemma cm_invalidate_fault: "\<not> redis_ok w \<Longrightarrow> fst (cm_invalidate w fid) = Inr False"
  by (drule not_redis_ok)
     (auto simp: cm_invalidate_def cm_invalidate_try_def redis_delete_def redis_round_trip_def
           Let_def)

lemma cm_get_ok: "redis_ok w \<Longrightarrow> fst (cm_get w fid) = Inr (cached w fid)"
  by (auto simp: redis_ok_def cm_get_def cm_get_try_def redis_get_def redis_round_trip_def
        cached_def backing_store_def live_def Let_def
        split: if_splits list.splits option.splits)

text \<open>A lookup changes nothing but the schedule of faults and an expired entry.\<close>

lemma cm_get_frame:
  "redis_available (snd (cm_get w fid)) = redis_available w"
  "cache_ttl (snd (cm_get w fid)) = cache_ttl w"
  "now (snd (cm_get w fid)) = now w"
  "db_fault (snd (cm_get w fid)) = db_fault w"
  "state_table (snd (cm_get w fid)) = state_table w"
  "db_queries (snd (cm_get w fid)) = db_queries w"
  by (auto simp: cm_get_def cm_get_try_def redis_get_def redis_round_trip_def Let_def
        split: if_splits list.splits option.splits bool.splits)

lemma cm_get_redis_world:
  "redis_available w \<Longrightarrow> \<exists>bs. snd (cm_get w fid) = w\<lparr>redis_faults := bs\<rparr>"
proof -
  assume a: "redis_available w"
  show ?thesis
  proof (cases "redis_faults w")
    case Nil
    then have "snd (cm_get w fid) = w\<lparr>redis_faults := []\<rparr>"
      using a by (simp add: cm_get_def cm_get_try_def redis_get_def redis_round_trip_def Let_def)
    then show ?thesis ..
  next
    case (Cons b bs)
    then have "snd (cm_get w fid) = w\<lparr>redis_faults := bs\<rparr>"
      using a
      by (cases b) (simp_all add: cm_get_def cm_get_try_def redis_get_def redis_round_trip_def Let_def)
    then show ?thesis ..
  qed
qed

lemma cm_get_memory_world:
  assumes "\<not> redis_available w"
  shows "snd (cm_get w fid) = w
       \<or> (snd (cm_get w fid) =
             w\<lparr>in_memory_cache := (in_memory_cache w)(get_cache_key fid := None)\<rparr>
          \<and> live (in_memory_cache w) (now w) (get_cache_key fid) = None)"
  using assms
  by (cases "in_memory_cache w (get_cache_key fid)")
     (auto simp: cm_get_def cm_get_try_def Let_def live_def)

lemma cm_get_cached: "cached (snd (cm_get w fid)) k = cached w k"
proof (cases "redis_available w")
  case True
  from cm_get_redis_world [OF True] obtain bs
    where "snd (cm_get w fid) = w\<lparr>redis_faults := bs\<rparr>" ..
  then show ?thesis by (simp add: cached_def backing_store_def)
next
  case False
  from cm_get_memory_world [OF False, of fid] show ?thesis
  proof
    assume "snd (cm_get w fid) = w"
    then show ?thesis by simp
  next
    assume "snd (cm_get w fid) =
             w\<lparr>in_memory_cache := (in_memory_cache w)(get_cache_key fid := None)\<rparr>
          \<and> live (in_memory_cache w) (now w) (get_cache_key fid) = None"
    then have e: "snd (cm_get w fid) =
             w\<lparr>in_memory_cache := (in_memory_cache w)(get_cache_key fid := None)\<rparr>"
      and l: "live (in_memory_cache w) (now w) (get_cache_key fid) = None" by simp_all
    show ?thesis
      unfolding e using l False
      by (auto simp: cached_def backing_store_def live_def)
  qed
qed

lemma cm_get_store:
  "backing_store (snd (cm_get w fid)) key = Some e \<Longrightarrow> backing_store w key = Some e"
  by (auto simp: cm_get_def cm_get_try_def redis_get_def redis_round_trip_def Let_def
        backing_store_def
        split: if_splits list.splits option.splits bool.splits)

lemma cm_get_miss_evicts:
  "\<not> redis_available w \<Longrightarrow> fst (cm_get w fid) = Inr None \<Longrightarrow>
   in_memory_cache (snd (cm_get w fid)) (get_cache_key fid) = None"
  by (auto simp: cm_get_def cm_get_try_def Let_def split: if_splits option.splits)

lemma cm_invalidate_ok:
  assumes "redis_ok w"
  shows "fst (cm_invalidate w fid) = Inr True"
    and "backing_store (snd (cm_invalidate w fid)) = (backing_store w)(get_cache_key fid := None)"
  using assms
  by (auto simp: redis_ok_def cm_invalidate_def cm_invalidate_try_def redis_delete_def
        redis_round_trip_def backing_store_def Let_def
        split: if_splits list.splits)

lemma cm_invalidate_frame:
  "redis_available (snd (cm_invalidate w fid)) = redis_available w"
  "now (snd (cm_invalidate w fid)) = now w"
  "state_table (snd (cm_invalidate w fid)) = state_table w"
  by (auto simp: cm_invalidate_def cm_invalidate_try_def redis_delete_def
        redis_round_trip_def Let_def
        split: if_splits list.splits bool.splits)

lemma cm_set_frame:
  "redis_available (snd (cm_set w fid data)) = redis_available w"
  "cache_ttl (snd (cm_set w fid data)) = cache_ttl w"
  "now (snd (cm_set w fid data)) = now w"
  "db_fault (snd (cm_set w fid data)) = db_fault w"
  "state_table (snd (cm_set w fid data)) = state_table w"
  "db_queries (snd (cm_set w fid data)) = db_queries w"
  by (auto simp: cm_set_def cm_set_try_def redis_setex_def redis_round_trip_def Let_def
        split: if_splits list.splits bool.splits sum.splits)

text \<open>A write either leaves the store as it is or puts the cached form under the key.\<close>

lemma cm_set_store:
  "backing_store (snd (cm_set w fid data)) = backing_store w
   \<or> (\<exists>doc. cached_form w data = Some doc
          \<and> backing_store (snd (cm_set w fid data)) =
              (backing_store w)(get_cache_key fid \<mapsto> (doc, now w + cache_ttl w)))"
  by (auto simp: cm_set_def cm_set_try_def redis_setex_def redis_round_trip_def Let_def
        backing_store_def cached_form_def
        split: if_splits list.splits bool.splits sum.splits)

lemma cm_set_ok:
  assumes "redis_ok w" and "cached_form w data = Some doc"
    and "redis_available w \<longrightarrow> 0 < cache_ttl w"
  shows "fst (cm_set w fid data) = Inr True"
    and "backing_store (snd (cm_set w fid data)) =
           (backing_store w)(get_cache_key fid \<mapsto> (doc, now w + cache_ttl w))"
  using assms
  by (auto simp: redis_ok_def cm_set_def cm_set_try_def redis_setex_def redis_round_trip_def
        Let_def backing_store_def cached_form_def
        split: if_splits list.splits bool.splits sum.splits)

section \<open>Properties of the fetch from the table\<close>

lemma cm_set_result:
  "fst (case cm_set w fid r of (Inl e, w2) \<Rightarrow> (Inl e, w2) | (Inr ok, w2) \<Rightarrow> (Inr r, w2)) = Inr r"
  "snd (case cm_set w fid r of (Inl e, w2) \<Rightarrow> (Inl e, w2) | (Inr ok, w2) \<Rightarrow> (Inr r, w2))
     = snd (cm_set w fid r)"
  using cm_set_returns [of w fid r] by (auto split: prod.splits sum.splits)

lemma cm_set_not_raised: "cm_set w fid r \<noteq> (Inl e, w')"
  using cm_set_returns [of w fid r] by auto

lemma error_result_status: "field (error_result e fid) ''status'' = PStr ''error''"
  by (simp add: error_result_def field_def get_or_def)

lemma not_found_result_status: "field (not_found_result fid) ''status'' = PStr ''not_found''"
  by (simp add: not_found_result_def field_def get_or_def)

lemma table_query_eq:
  "table_query w fid =
     (case db_fault w of Some m \<Rightarrow> Inl (StoreError m) | None \<Rightarrow> Inr (take 1 (state_table w fid)),
      queried w)"
  by (simp add: table_query_def queried_def Let_def split: option.splits)

lemma queried_frame:
  "cache_ttl (queried w) = cache_ttl w"
  "redis_available (queried w) = redis_available w"
  "now (queried w) = now w"
  "db_fault (queried w) = db_fault w"
  "state_table (queried w) = state_table w"
  "redis_faults (queried w) = redis_faults w"
  "backing_store (queried w) = backing_store w"
  "cached (queried w) = cached w"
  "redis_ok (queried w) = redis_ok w"
  "cached_form (queried w) = cached_form w"
  by (simp_all add: queried_def backing_store_def cached_def redis_ok_def cached_form_def fun_eq_iff)

lemma fetch_fst: "fst (fetch loads w fid uc) = Inr (fetch_answer loads w fid)"
  by (simp add: fetch_def fetch_try_def table_query_eq fetch_answer_def queried_frame
        cm_set_not_raised
        split: option.splits list.splits sum.splits prod.splits)

lemma fetch_snd:
  "snd (fetch loads w fid uc) =
     (if uc \<and> field (fetch_answer loads w fid) ''status'' = PStr ''completed''
      then snd (cm_set (queried w) fid (fetch_answer loads w fid))
      else queried w)"
  by (simp add: fetch_def fetch_try_def table_query_eq fetch_answer_def queried_frame
        cm_set_not_raised error_result_status not_found_result_status
        split: option.splits list.splits sum.splits prod.splits)

lemma fetch_answer_frame:
  assumes "db_fault w' = db_fault w" and "state_table w' = state_table w"
    and "cache_ttl w' = cache_ttl w"
  shows "fetch_answer loads w' fid = fetch_answer loads w fid"
  unfolding fetch_answer_def assms by (rule refl)

lemma fetch_answer_after_get:
  "fetch_answer loads (snd (cm_get w fid')) fid = fetch_answer loads w fid"
  by (rule fetch_answer_frame) (simp_all add: cm_get_frame)

lemma get_feedback_results_no_cache:
  "get_feedback_results loads w fid False = fetch loads w fid False"
  by (simp add: get_feedback_results_def)

lemma get_feedback_results_miss:
  assumes "fst (cm_get w fid) = Inr None"
  shows "get_feedback_results loads w fid True = fetch loads (snd (cm_get w fid)) fid True"
  using assms by (cases "cm_get w fid") (simp add: get_feedback_results_def)

lemma get_feedback_results_false_entry:
  assumes "fst (cm_get w fid) = Inr (Some v)" and "\<not> truthy v"
  shows "get_feedback_results loads w fid True = fetch loads (snd (cm_get w fid)) fid True"
  using assms by (cases "cm_get w fid") (simp add: get_feedback_results_def)

lemma get_feedback_results_hit:
  assumes "fst (cm_get w fid) = Inr (Some v)" and "truthy v"
  shows "get_feedback_results loads w fid True = serve_cached (snd (cm_get w fid)) fid v"
  using assms by (cases "cm_get w fid") (simp add: get_feedback_results_def)

text \<open>
  C6.  Neither \<^verbatim>\<open>CacheManager.get\<close> nor \<^verbatim>\<open>CacheManager.set\<close> raises: every exception of
  their bodies becomes the answer \<^verbatim>\<open>None\<close> (a miss), respectively \<^verbatim>\<open>False\<close>.  When the
  call on the Redis client fails, \<^verbatim>\<open>get\<close> answers \<^verbatim>\<open>None\<close>, \<^verbatim>\<open>set\<close> answers \<^verbatim>\<open>False\<close>
  and \<^verbatim>\<open>get_feedback_results\<close> answers from the table; and the answer of a fetch from
  the table does not depend on the faults of the cache.
\<close>

theorem cache_manager_fail_open:
  "(\<exists>r. fst (cm_get w fid) = Inr r)
   \<and> (\<exists>b. fst (cm_set w fid data) = Inr b)
   \<and> (fst (cm_get_try w fid) = Inl e \<longrightarrow> fst (cm_get w fid) = Inr None)
   \<and> (fst (cm_set_try w fid data) = Inl e \<longrightarrow> fst (cm_set w fid data) = Inr False)
   \<and> (\<not> redis_ok w \<longrightarrow>
         fst (cm_get w fid) = Inr None \<and> fst (cm_set w fid data) = Inr False
       \<and> fst (get_feedback_results loads w fid True) = Inr (fetch_answer loads w fid))
   \<and> fst (fetch loads (w\<lparr>redis_faults := fs\<rparr>) fid uc) = fst (fetch loads w fid uc)"
proof -
  have fault: "\<not> redis_ok w \<longrightarrow>
         fst (cm_get w fid) = Inr None \<and> fst (cm_set w fid data) = Inr False
       \<and> fst (get_feedback_results loads w fid True) = Inr (fetch_answer loads w fid)"
  proof
    assume a: "\<not> redis_ok w"
    have g: "fst (cm_get w fid) = Inr None" by (rule cm_get_fault [OF a])
    have "fst (get_feedback_results loads w fid True) = Inr (fetch_answer loads w fid)"
      by (simp add: get_feedback_results_miss [OF g] fetch_fst fetch_answer_after_get)
    with g cm_set_fault [OF a] show
      "fst (cm_get w fid) = Inr None \<and> fst (cm_set w fid data) = Inr False
       \<and> fst (get_feedback_results loads w fid True) = Inr (fetch_answer loads w fid)"
      by simp
  qed
  have indep: "fst (fetch loads (w\<lparr>redis_faults := fs\<rparr>) fid uc) = fst (fetch loads w fid uc)"
    using fetch_answer_frame [of "w\<lparr>redis_faults := fs\<rparr>" w loads fid]
    by (simp add: fetch_fst)
  from cm_get_returns cm_set_returns cm_get_caught cm_set_caught fault indep
  show ?thesis by blast
qed

theorem cache_manager_fail_open_witness:
  "\<not> redis_ok (fresh_world True\<lparr>redis_faults := [True]\<rparr>)
   \<and> fst (cm_get_try (fresh_world True\<lparr>redis_faults := [True]\<rparr>) ''A1'')
       = Inl (StoreError ''redis: connection error'')
   \<and> fst (cm_get (fresh_world True\<lparr>redis_faults := [True]\<rparr>) ''A1'') = Inr None
   \<and> fst (cm_set (fresh_world True\<lparr>redis_faults := [True]\<rparr>) ''A1'' (PDict [])) = Inr False
   \<and> fst (get_feedback_results (\<lambda>s. Inl JSONDecodeError) (fresh_world True\<lparr>redis_faults := [True]\<rparr>) ''A1'' True)
       = Inr (not_found_result ''A1'')"
proof -
  let ?w = "fresh_world True\<lparr>redis_faults := [True]\<rparr>"
  have a: "\<not> redis_ok ?w" by (simp add: redis_ok_def fresh_world_def)
  have b: "fst (cm_get_try ?w ''A1'') = Inl (StoreError ''redis: connection error'')"
    by (simp add: cm_get_try_def redis_get_def redis_round_trip_def fresh_world_def Let_def)
  have c: "fetch_answer (\<lambda>s. Inl JSONDecodeError) ?w ''A1'' = not_found_result ''A1''"
    by (simp add: fetch_answer_def fresh_world_def)
  from cache_manager_fail_open [of ?w "''A1''" "PDict []" "StoreError ''redis: connection error''"
      "\<lambda>s. Inl JSONDecodeError"] a b c
  show ?thesis by simp
qed

text \<open>
  C7.  \<^verbatim>\<open>invalidate_cache\<close> never raises.  When the backend answers, it returns \<^verbatim>\<open>True\<close>
  and the cache holds no entry for the id afterwards; on an id that has no entry it leaves
  the store as it is; and a second call returns \<^verbatim>\<open>True\<close> again and changes nothing.
\<close>

theorem invalidate_cache_idempotent:
  "(\<exists>b. fst (invalidate_cache w fid) = Inr b)
   \<and> (redis_ok w \<longrightarrow>
         fst (invalidate_cache w fid) = Inr True
       \<and> backing_store (snd (invalidate_cache w fid)) (get_cache_key fid) = None
       \<and> cached (snd (invalidate_cache w fid)) fid = None)
   \<and> (redis_ok w \<and> backing_store w (get_cache_key fid) = None \<longrightarrow>
         backing_store (snd (invalidate_cache w fid)) = backing_store w)
   \<and> (redis_ok w \<and> redis_ok (snd (invalidate_cache w fid)) \<longrightarrow>
         fst (invalidate_cache (snd (invalidate_cache w fid)) fid) = Inr True
       \<and> backing_store (snd (invalidate_cache (snd (invalidate_cache w fid)) fid))
           = backing_store (snd (invalidate_cache w fid)))"
proof -
  let ?w1 = "snd (cm_invalidate w fid)"
  have first: "redis_ok w \<longrightarrow>
         fst (cm_invalidate w fid) = Inr True
       \<and> backing_store ?w1 (get_cache_key fid) = None
       \<and> cached ?w1 fid = None"
    by (simp add: cm_invalidate_ok cached_def live_def)
  have absent: "redis_ok w \<and> backing_store w (get_cache_key fid) = None \<longrightarrow>
         backing_store ?w1 = backing_store w"
    by (auto simp: cm_invalidate_ok)
  have again: "redis_ok w \<and> redis_ok ?w1 \<longrightarrow>
         fst (cm_invalidate ?w1 fid) = Inr True
       \<and> backing_store (snd (cm_invalidate ?w1 fid)) = backing_store ?w1"
    by (simp add: cm_invalidate_ok)
  from cm_invalidate_returns [of w fid] first absent again
  show ?thesis unfolding invalidate_cache_def by blast
qed

theorem invalidate_cache_idempotent_witness:
  "redis_ok (fresh_world False)
   \<and> backing_store (fresh_world False) (get_cache_key ''A1'') = None
   \<and> fst (invalidate_cache (fresh_world False) ''A1'') = Inr True
   \<and> cached (snd (invalidate_cache (fresh_world False) ''A1'')) ''A1'' = None
   \<and> redis_ok (snd (invalidate_cache (fresh_world False) ''A1''))
   \<and> fst (invalidate_cache (snd (invalidate_cache (fresh_world False) ''A1'')) ''A1'') = Inr True"
proof -
  let ?w = "fresh_world False"
  have a: "redis_ok ?w" by (simp add: redis_ok_def fresh_world_def)
  have b: "backing_store ?w (get_cache_key ''A1'') = None"
    by (simp add: backing_store_def fresh_world_def)
  have c: "redis_ok (snd (invalidate_cache ?w ''A1''))"
    by (simp add: redis_ok_def invalidate_cache_def cm_invalidate_frame fresh_world_def)
  from invalidate_cache_idempotent [of ?w "''A1''"] a b c
  show ?thesis by simp
qed

section \<open>Properties of the retrieval service\<close>

lemma serve_cached_dict:
  "serve_cached w fid (PDict d) =
     (Inr (PDict (set_str (set_str d ''cache_hit'' (PBool True)) ''retrieved_from'' (PStr ''cache''))),
      alias_update w fid
        (PDict (set_str (set_str d ''cache_hit'' (PBool True)) ''retrieved_from'' (PStr ''cache''))))"
  by (simp add: serve_cached_def py_setitem_def)

lemma alias_update_frame:
  "redis_available (alias_update w fid v) = redis_available w"
  "cache_ttl (alias_update w fid v) = cache_ttl w"
  "now (alias_update w fid v) = now w"
  "db_fault (alias_update w fid v) = db_fault w"
  "state_table (alias_update w fid v) = state_table w"
  "db_queries (alias_update w fid v) = db_queries w"
  "redis_faults (alias_update w fid v) = redis_faults w"
  by (simp_all add: alias_update_def Let_def split: option.splits)

lemma alias_update_store:
  "backing_store (alias_update w fid v) key = None \<longleftrightarrow> backing_store w key = None"
  by (auto simp: alias_update_def backing_store_def Let_def split: option.splits)

lemma alias_update_cached:
  "cached (alias_update w fid v) k = None \<longleftrightarrow> cached w k = None"
  by (auto simp: alias_update_def backing_store_def cached_def live_def Let_def
           split: option.splits if_splits)

lemma serve_cached_queries: "db_queries (snd (serve_cached w fid v)) = db_queries w"
  by (auto simp: serve_cached_def alias_update_frame split: sum.splits)

lemma hit_fields:
  "field (PDict (set_str (set_str d ''cache_hit'' (PBool True)) ''retrieved_from'' (PStr ''cache'')))
     ''cache_hit'' = PBool True"
  "field (PDict (set_str (set_str d ''cache_hit'' (PBool True)) ''retrieved_from'' (PStr ''cache'')))
     ''retrieved_from'' = PStr ''cache''"
  "k \<noteq> ''cache_hit'' \<Longrightarrow> k \<noteq> ''retrieved_from'' \<Longrightarrow>
   field (PDict (set_str (set_str d ''cache_hit'' (PBool True)) ''retrieved_from'' (PStr ''cache'')))
     k = field (PDict d) k"
  by (simp_all add: field_set_same field_set_other)

text \<open>
  C2.  When \<^verbatim>\<open>get_feedback_results\<close> is called with \<^verbatim>\<open>use_cache=True\<close>, the cache holds a
  live entry for the id (a non-empty dictionary, as every cached response is) and the
  backend answers the lookup, the call returns that entry with \<^verbatim>\<open>cache_hit\<close> set to
  \<^verbatim>\<open>True\<close> and \<^verbatim>\<open>retrieved_from\<close> set to \<^verbatim>\<open>cache\<close>, every other field as cached, and sends
  no query to the table.
\<close>

theorem cache_hit_no_table_access:
  assumes "redis_ok w" and "cached w fid = Some (PDict d)" and "d \<noteq> []"
  shows "fst (get_feedback_results loads w fid True) =
           Inr (PDict (set_str (set_str d ''cache_hit'' (PBool True))
                         ''retrieved_from'' (PStr ''cache'')))
       \<and> result_field (fst (get_feedback_results loads w fid True)) ''cache_hit''
           = Some (PBool True)
       \<and> result_field (fst (get_feedback_results loads w fid True)) ''retrieved_from''
           = Some (PStr ''cache'')
       \<and> (k \<noteq> ''cache_hit'' \<and> k \<noteq> ''retrieved_from'' \<longrightarrow>
            result_field (fst (get_feedback_results loads w fid True)) k
              = Some (field (PDict d) k))
       \<and> db_queries (snd (get_feedback_results loads w fid True)) = db_queries w"
proof -
  have g: "fst (cm_get w fid) = Inr (Some (PDict d))"
    using cm_get_ok [OF assms(1), of fid] assms(2) by simp
  have t: "truthy (PDict d)" using assms(3) by simp
  have e: "get_feedback_results loads w fid True = serve_cached (snd (cm_get w fid)) fid (PDict d)"
    by (rule get_feedback_results_hit [OF g t])
  show ?thesis
    unfolding e
    by (simp add: serve_cached_dict result_field_def hit_fields alias_update_frame cm_get_frame)
qed

theorem cache_hit_no_table_access_witness:
  "redis_ok (fresh_world False\<lparr>in_memory_cache :=
       (\<lambda>key. None)(get_cache_key ''A1'' \<mapsto> (PDict [(PStr ''status'', PStr ''completed'')], 1300))\<rparr>)
   \<and> cached (fresh_world False\<lparr>in_memory_cache :=
       (\<lambda>key. None)(get_cache_key ''A1'' \<mapsto> (PDict [(PStr ''status'', PStr ''completed'')], 1300))\<rparr>)
       ''A1'' = Some (PDict [(PStr ''status'', PStr ''completed'')])
   \<and> fst (get_feedback_results (\<lambda>s. Inl JSONDecodeError) (fresh_world False\<lparr>in_memory_cache :=
       (\<lambda>key. None)(get_cache_key ''A1'' \<mapsto> (PDict [(PStr ''status'', PStr ''completed'')], 1300))\<rparr>)
       ''A1'' True)
     = Inr (PDict [(PStr ''status'', PStr ''completed''), (PStr ''cache_hit'', PBool True),
                   (PStr ''retrieved_from'', PStr ''cache'')])
   \<and> db_queries (snd (get_feedback_results (\<lambda>s. Inl JSONDecodeError) (fresh_world False\<lparr>in_memory_cache :=
       (\<lambda>key. None)(get_cache_key ''A1'' \<mapsto> (PDict [(PStr ''status'', PStr ''completed'')], 1300))\<rparr>)
       ''A1'' True)) = 0"
proof -
  let ?w = "fresh_world False\<lparr>in_memory_cache :=
       (\<lambda>key. None)(get_cache_key ''A1'' \<mapsto> (PDict [(PStr ''status'', PStr ''completed'')], 1300))\<rparr>"
  have a: "redis_ok ?w" by (simp add: redis_ok_def fresh_world_def)
  have b: "cached ?w ''A1'' = Some (PDict [(PStr ''status'', PStr ''completed'')])"
    by (simp add: cached_def backing_store_def live_def fresh_world_def)
  have c: "[(PStr ''status'', PStr ''completed'')] \<noteq> []" by simp
  have d: "db_queries ?w = 0" by (simp add: fresh_world_def)
  from cache_hit_no_table_access [OF a b c, where loads = "\<lambda>s. Inl JSONDecodeError" and k = "''status''"] a b d
  show ?thesis by (simp add: set_str_def)
qed

lemma format_response_dict:
  "format_response loads ttl record = Inr r \<Longrightarrow> \<exists>d. r = PDict d"
  by (auto simp: format_response_def Let_def split: option.splits sum.splits if_splits)

lemma set_str_nonempty: "set_str d k v \<noteq> []"
  by (cases d) (auto simp: set_str_def split: if_splits)

lemma error_result_dict: "\<exists>d. error_result e fid = PDict d \<and> d \<noteq> []"
  by (simp add: error_result_def)

lemma not_found_result_dict: "\<exists>d. not_found_result fid = PDict d \<and> d \<noteq> []"
  by (simp add: not_found_result_def)

lemma fetch_answer_cases:
  "(\<exists>e. fetch_answer loads w fid = error_result e fid)
   \<or> (db_fault w = None \<and> state_table w fid = [] \<and> fetch_answer loads w fid = not_found_result fid)
   \<or> (\<exists>record rest d. db_fault w = None \<and> state_table w fid = record # rest
          \<and> format_response loads (cache_ttl w) record = Inr (PDict d)
          \<and> fetch_answer loads w fid =
               PDict (set_str (set_str d ''cache_hit'' (PBool False))
                        ''retrieved_from'' (PStr ''database'')))"
proof (cases "db_fault w")
  case (Some m)
  then show ?thesis by (auto simp: fetch_answer_def)
next
  case None
  show ?thesis
  proof (cases "state_table w fid")
    case Nil
    with None show ?thesis by (simp add: fetch_answer_def)
  next
    case (Cons rcd rest)
    show ?thesis
    proof (cases "format_response loads (cache_ttl w) rcd")
      case (Inl e)
      with None Cons show ?thesis by (auto simp: fetch_answer_def)
    next
      case (Inr r0)
      from format_response_dict [OF Inr] obtain d where "r0 = PDict d" ..
      with None Cons Inr show ?thesis by (simp add: fetch_answer_def py_setitem_def)
    qed
  qed
qed

lemma fetch_answer_dict: "\<exists>d. fetch_answer loads w fid = PDict d \<and> d \<noteq> []"
  using fetch_answer_cases [of loads w fid] error_result_dict not_found_result_dict
    set_str_nonempty
  by metis

lemma fetch_answer_not_found:
  "db_fault w = None \<Longrightarrow> state_table w fid = [] \<Longrightarrow>
   fetch_answer loads w fid = not_found_result fid"
  by (simp add: fetch_answer_def)

lemma fetch_answer_fault:
  "db_fault w = Some m \<Longrightarrow> fetch_answer loads w fid = error_result (StoreError m) fid"
  by (simp add: fetch_answer_def)

lemma fetch_answer_completed_record:
  assumes "field (fetch_answer loads w fid) ''status'' = PStr ''completed''"
  shows "state_table w fid \<noteq> []"
  using fetch_answer_cases [of loads w fid] assms
  by (auto simp: error_result_status not_found_result_status)

lemma fetch_answer_from_database:
  assumes "field (fetch_answer loads w fid) ''status'' = PStr ''completed''"
  shows "field (fetch_answer loads w fid) ''retrieved_from'' = PStr ''database''
       \<and> field (fetch_answer loads w fid) ''cache_hit'' = PBool False"
  using fetch_answer_cases [of loads w fid] assms
  by (auto simp: error_result_status not_found_result_status field_set_same field_set_other)

lemma cm_get_from_store:
  "fst (cm_get w fid) = Inr (Some v) \<Longrightarrow> \<exists>t. backing_store w (get_cache_key fid) = Some (v, t)"
proof (cases "redis_ok w")
  case True
  assume "fst (cm_get w fid) = Inr (Some v)"
  with cm_get_ok [OF True, of fid] have "cached w fid = Some v" by simp
  then show ?thesis
    by (auto simp: cached_def live_def split: option.splits if_splits)
next
  case False
  assume "fst (cm_get w fid) = Inr (Some v)"
  with cm_get_fault [OF False, of fid] show ?thesis by simp
qed

lemma get_feedback_results_cases:
  "get_feedback_results loads w fid uc = fetch loads (if uc then snd (cm_get w fid) else w) fid uc
   \<or> (\<exists>v t. uc \<and> fst (cm_get w fid) = Inr (Some v) \<and> truthy v
         \<and> backing_store w (get_cache_key fid) = Some (v, t)
         \<and> get_feedback_results loads w fid uc = serve_cached (snd (cm_get w fid)) fid v)"
proof (cases uc)
  case False
  then show ?thesis by (simp add: get_feedback_results_no_cache)
next
  case True
  from cm_get_returns [of w fid] obtain c where c: "fst (cm_get w fid) = Inr c" ..
  show ?thesis
  proof (cases c)
    case None
    with c True show ?thesis by (simp add: get_feedback_results_miss)
  next
    case (Some v)
    show ?thesis
    proof (cases "truthy v")
      case False
      with c Some True show ?thesis by (simp add: get_feedback_results_false_entry)
    next
      case t: True
      from c Some have g: "fst (cm_get w fid) = Inr (Some v)" by simp
      from cm_get_from_store [OF g] obtain t' where "backing_store w (get_cache_key fid) = Some (v, t')" ..
      with g t True get_feedback_results_hit [OF g t, of loads] show ?thesis by auto
    qed
  qed
qed

lemma get_feedback_results_returns:
  assumes "cache_holds_dicts w"
  shows "\<exists>r. fst (get_feedback_results loads w fid uc) = Inr r"
  using get_feedback_results_cases [of loads w fid uc]
proof
  assume "get_feedback_results loads w fid uc = fetch loads (if uc then snd (cm_get w fid) else w) fid uc"
  then show ?thesis by (simp add: fetch_fst)
next
  assume "\<exists>v t. uc \<and> fst (cm_get w fid) = Inr (Some v) \<and> truthy v
         \<and> backing_store w (get_cache_key fid) = Some (v, t)
         \<and> get_feedback_results loads w fid uc = serve_cached (snd (cm_get w fid)) fid v"
  then obtain v t where s: "backing_store w (get_cache_key fid) = Some (v, t)"
    and e: "get_feedback_results loads w fid uc = serve_cached (snd (cm_get w fid)) fid v"
    by blast
  from assms s have "is_dict v" unfolding cache_holds_dicts_def by blast
  then obtain d where "v = PDict d" by (auto simp: is_dict_def split: pyval.splits)
  with e show ?thesis by (simp add: serve_cached_dict)
qed

lemma get_feedback_results_queried:
  assumes "db_queries (snd (get_feedback_results loads w fid uc)) \<noteq> db_queries w"
  shows "get_feedback_results loads w fid uc = fetch loads (if uc then snd (cm_get w fid) else w) fid uc"
  using get_feedback_results_cases [of loads w fid uc] assms
  by (auto simp: serve_cached_queries cm_get_frame)

lemma error_result_fields:
  "field (error_result e fid) ''status'' = PStr ''error''"
  "field (error_result e fid) ''message'' = PStr (''Error retrieving results: '' @ exc_str e)"
  "field (error_result e fid) ''feedback_id'' = PStr fid"
  "field (error_result e fid) ''cache_hit'' = PBool False"
  "field (error_result e fid) ''retrieved_from'' = PStr ''error''"
  by (simp_all add: error_result_def field_def get_or_def)

lemma not_found_result_fields:
  "field (not_found_result fid) ''status'' = PStr ''not_found''"
  "field (not_found_result fid) ''message'' = PStr ''Feedback ID not found''"
  "field (not_found_result fid) ''feedback_id'' = PStr fid"
  "field (not_found_result fid) ''cache_hit'' = PBool False"
  "field (not_found_result fid) ''retrieved_from'' = PStr ''database''"
  by (simp_all add: not_found_result_def status_messages_def field_def get_or_def)

subsection \<open>The invariants of the cache\<close>

lemma get_cache_key_inj: "get_cache_key a = get_cache_key b \<Longrightarrow> a = b"
  by (simp add: get_cache_key_def)

lemma cached_form_dict: "cached_form w (PDict d) = Some doc \<Longrightarrow> is_dict doc"
  by (auto simp: cached_form_def is_dict_def split: if_splits sum.splits)

lemma holds_dicts_after_get: "cache_holds_dicts w \<Longrightarrow> cache_holds_dicts (snd (cm_get w fid))"
  unfolding cache_holds_dicts_def using cm_get_store by blast

lemma coherent_after_get: "cache_coherent w \<Longrightarrow> cache_coherent (snd (cm_get w fid))"
  unfolding cache_coherent_def using cm_get_store by (metis cm_get_frame(5))

lemma holds_dicts_after_set:
  assumes "cache_holds_dicts w"
  shows "cache_holds_dicts (snd (cm_set w fid (PDict d)))"
  using cm_set_store [of w fid "PDict d"]
proof
  assume "backing_store (snd (cm_set w fid (PDict d))) = backing_store w"
  with assms show ?thesis by (simp add: cache_holds_dicts_def)
next
  assume "\<exists>doc. cached_form w (PDict d) = Some doc
          \<and> backing_store (snd (cm_set w fid (PDict d))) =
              (backing_store w)(get_cache_key fid \<mapsto> (doc, now w + cache_ttl w))"
  then obtain doc where c: "cached_form w (PDict d) = Some doc"
    and s: "backing_store (snd (cm_set w fid (PDict d))) =
              (backing_store w)(get_cache_key fid \<mapsto> (doc, now w + cache_ttl w))" by blast
  from cached_form_dict [OF c] assms show ?thesis
    by (auto simp: cache_holds_dicts_def s)
qed

lemma coherent_after_set:
  assumes "cache_coherent w" and "state_table w fid \<noteq> []"
  shows "cache_coherent (snd (cm_set w fid r))"
  using cm_set_store [of w fid r]
proof
  assume "backing_store (snd (cm_set w fid r)) = backing_store w"
  with assms show ?thesis by (simp add: cache_coherent_def cm_set_frame)
next
  assume "\<exists>doc. cached_form w r = Some doc
          \<and> backing_store (snd (cm_set w fid r)) =
              (backing_store w)(get_cache_key fid \<mapsto> (doc, now w + cache_ttl w))"
  then obtain doc where s: "backing_store (snd (cm_set w fid r)) =
              (backing_store w)(get_cache_key fid \<mapsto> (doc, now w + cache_ttl w))" by blast
  from assms show ?thesis
    by (auto simp: cache_coherent_def s cm_set_frame dest: get_cache_key_inj)
qed

lemma holds_dicts_after_alias:
  "cache_holds_dicts w \<Longrightarrow> cache_holds_dicts (alias_update w fid (PDict d))"
  by (auto simp: cache_holds_dicts_def alias_update_def backing_store_def Let_def is_dict_def
           split: option.splits if_splits)

lemma coherent_after_alias:
  assumes "cache_coherent w"
  shows "cache_coherent (alias_update w fid v)"
  unfolding cache_coherent_def
proof (intro allI impI)
  fix k v' t
  assume "backing_store (alias_update w fid v) (get_cache_key k) = Some (v', t)"
  then have "backing_store w (get_cache_key k) \<noteq> None"
    using alias_update_store [of w fid v "get_cache_key k"] by simp
  then obtain v0 t0 where "backing_store w (get_cache_key k) = Some (v0, t0)" by auto
  with assms have "state_table w k \<noteq> []" unfolding cache_coherent_def by blast
  then show "state_table (alias_update w fid v) k \<noteq> []" by (simp add: alias_update_frame)
qed

lemma holds_dicts_queried: "cache_holds_dicts (queried w) = cache_holds_dicts w"
  by (simp add: cache_holds_dicts_def queried_frame)

lemma coherent_queried: "cache_coherent (queried w) = cache_coherent w"
  by (simp add: cache_coherent_def queried_frame)

lemma holds_dicts_after_fetch:
  assumes "cache_holds_dicts w"
  shows "cache_holds_dicts (snd (fetch loads w fid uc))"
proof -
  from fetch_answer_dict obtain d where d: "fetch_answer loads w fid = PDict d" by blast
  from assms have q: "cache_holds_dicts (queried w)" by (simp add: holds_dicts_queried)
  show ?thesis
    by (simp add: fetch_snd d q holds_dicts_after_set)
qed

lemma coherent_after_fetch:
  assumes "cache_coherent w"
  shows "cache_coherent (snd (fetch loads w fid uc))"
proof (cases "uc \<and> field (fetch_answer loads w fid) ''status'' = PStr ''completed''")
  case False
  with assms show ?thesis by (auto simp: fetch_snd coherent_queried)
next
  case True
  then have "field (fetch_answer loads w fid) ''status'' = PStr ''completed''" by simp
  from fetch_answer_completed_record [OF this]
  have "state_table (queried w) fid \<noteq> []" by (simp add: queried_frame)
  with assms True show ?thesis
    by (simp add: fetch_snd coherent_after_set coherent_queried)
qed

lemma cache_holds_dicts_preserved:
  assumes "cache_holds_dicts w"
  shows "cache_holds_dicts (snd (get_feedback_results loads w fid uc))"
  using get_feedback_results_cases [of loads w fid uc]
proof
  assume e: "get_feedback_results loads w fid uc
               = fetch loads (if uc then snd (cm_get w fid) else w) fid uc"
  from assms have "cache_holds_dicts (if uc then snd (cm_get w fid) else w)"
    by (simp add: holds_dicts_after_get)
  then show ?thesis unfolding e by (rule holds_dicts_after_fetch)
next
  assume "\<exists>v t. uc \<and> fst (cm_get w fid) = Inr (Some v) \<and> truthy v
         \<and> backing_store w (get_cache_key fid) = Some (v, t)
         \<and> get_feedback_results loads w fid uc = serve_cached (snd (cm_get w fid)) fid v"
  then obtain v t where s: "backing_store w (get_cache_key fid) = Some (v, t)"
    and e: "get_feedback_results loads w fid uc = serve_cached (snd (cm_get w fid)) fid v"
    by blast
  from assms s have "is_dict v" unfolding cache_holds_dicts_def by blast
  then obtain d where v: "v = PDict d" by (auto simp: is_dict_def split: pyval.splits)
  show ?thesis
    unfolding e v
    by (simp add: serve_cached_dict holds_dicts_after_alias holds_dicts_after_get assms)
qed

lemma serve_cached_world:
  "snd (serve_cached w fid v) = w \<or> (\<exists>v'. snd (serve_cached w fid v) = alias_update w fid v')"
  by (auto simp: serve_cached_def split: sum.splits)

lemma cache_coherent_preserved:
  assumes "cache_coherent w"
  shows "cache_coherent (snd (get_feedback_results loads w fid uc))"
  using get_feedback_results_cases [of loads w fid uc]
proof
  assume e: "get_feedback_results loads w fid uc
               = fetch loads (if uc then snd (cm_get w fid) else w) fid uc"
  from assms have "cache_coherent (if uc then snd (cm_get w fid) else w)"
    by (simp add: coherent_after_get)
  then show ?thesis unfolding e by (rule coherent_after_fetch)
next
  assume "\<exists>v t. uc \<and> fst (cm_get w fid) = Inr (Some v) \<and> truthy v
         \<and> backing_store w (get_cache_key fid) = Some (v, t)
         \<and> get_feedback_results loads w fid uc = serve_cached (snd (cm_get w fid)) fid v"
  then obtain v where
    e: "get_feedback_results loads w fid uc = serve_cached (snd (cm_get w fid)) fid v"
    by blast
  from assms have c: "cache_coherent (snd (cm_get w fid))" by (rule coherent_after_get)
  from serve_cached_world [of "snd (cm_get w fid)" fid v] c show ?thesis
    unfolding e by (auto simp: coherent_after_alias)
qed

lemma invalidate_preserves:
  "cache_holds_dicts w \<Longrightarrow> cache_holds_dicts (snd (invalidate_cache w fid))"
  "cache_coherent w \<Longrightarrow> cache_coherent (snd (invalidate_cache w fid))"
  by (auto simp: cache_holds_dicts_def cache_coherent_def invalidate_cache_def cm_invalidate_def
        cm_invalidate_try_def redis_delete_def redis_round_trip_def backing_store_def Let_def
        split: if_splits list.splits bool.splits)

lemma fresh_world_invariants:
  "cache_holds_dicts (fresh_world redis)" "cache_coherent (fresh_world redis)"
  by (simp_all add: cache_holds_dicts_def cache_coherent_def backing_store_def fresh_world_def)

subsection \<open>Absent records and faults\<close>

text \<open>
  C4.  In a world where the cache holds entries only for ids that have a record (the cache
  is filled from the table alone), for every id for which the table answers the query
  with no item, \<^verbatim>\<open>get_feedback_results\<close> returns the structured result with status
  \<^verbatim>\<open>not_found\<close>, \<^verbatim>\<open>cache_hit\<close> false and \<^verbatim>\<open>retrieved_from\<close> \<^verbatim>\<open>database\<close>, whatever
  \<^verbatim>\<open>use_cache\<close> is; the call returns, it does not raise.
\<close>

theorem absent_record_not_found:
  assumes "cache_coherent w" and "db_fault w = None" and "state_table w fid = []"
  shows "fst (get_feedback_results loads w fid uc) = Inr (not_found_result fid)
       \<and> result_field (fst (get_feedback_results loads w fid uc)) ''status''
           = Some (PStr ''not_found'')
       \<and> result_field (fst (get_feedback_results loads w fid uc)) ''cache_hit''
           = Some (PBool False)
       \<and> result_field (fst (get_feedback_results loads w fid uc)) ''retrieved_from''
           = Some (PStr ''database'')"
proof -
  let ?w' = "if uc then snd (cm_get w fid) else w"
  have "get_feedback_results loads w fid uc = fetch loads ?w' fid uc"
    using get_feedback_results_cases [of loads w fid uc] assms(1,3)
    unfolding cache_coherent_def by blast
  moreover have "fetch_answer loads ?w' fid = fetch_answer loads w fid"
    by (rule fetch_answer_frame) (simp_all add: cm_get_frame)
  ultimately have "fst (get_feedback_results loads w fid uc) = Inr (not_found_result fid)"
    by (simp add: fetch_fst fetch_answer_not_found [OF assms(2,3)])
  then show ?thesis by (simp add: result_field_def not_found_result_fields)
qed

theorem absent_record_not_found_witness:
  "cache_coherent (fresh_world True) \<and> db_fault (fresh_world True) = None
   \<and> state_table (fresh_world True) ''never-submitted'' = []
   \<and> fst (get_feedback_results (\<lambda>s. Inl JSONDecodeError) (fresh_world True) ''never-submitted'' True)
       = Inr (not_found_result ''never-submitted'')
   \<and> fst (get_feedback_results (\<lambda>s. Inl JSONDecodeError) (fresh_world True) ''never-submitted'' False)
       = Inr (not_found_result ''never-submitted'')"
proof -
  have a: "cache_coherent (fresh_world True)" by (rule fresh_world_invariants)
  have b: "db_fault (fresh_world True) = None" by (simp add: fresh_world_def)
  have c: "state_table (fresh_world True) ''never-submitted'' = []" by (simp add: fresh_world_def)
  from absent_record_not_found [OF a b c, where loads = "\<lambda>s. Inl JSONDecodeError" and uc = True]
    absent_record_not_found [OF a b c, where loads = "\<lambda>s. Inl JSONDecodeError" and uc = False] a b c
  show ?thesis by simp
qed

lemma fetch_caught:
  "fst (fetch_try loads w fid uc) = Inl e \<Longrightarrow> fst (fetch loads w fid uc) = Inr (error_result e fid)"
  by (cases "fetch_try loads w fid uc") (auto simp: fetch_def)

text \<open>
  C5.  In a world whose cache holds only dictionaries (all that the cache manager ever
  stores), \<^verbatim>\<open>get_feedback_results\<close> returns a result for every id and flag, and
  \<^verbatim>\<open>invalidate_cache\<close> returns a boolean in every world: neither raises.  Every exception
  raised inside the \<^verbatim>\<open>try\<close> block becomes the structured error result; in particular,
  when the table is queried and the query fails with text \<open>m\<close>, the call returns the result
  with status \<^verbatim>\<open>error\<close>, the message, the id, \<^verbatim>\<open>cache_hit\<close> false and
  \<^verbatim>\<open>retrieved_from\<close> \<^verbatim>\<open>error\<close>.
\<close>

theorem faults_become_results:
  "(cache_holds_dicts w \<longrightarrow> (\<exists>r. fst (get_feedback_results loads w fid uc) = Inr r))
   \<and> (\<exists>b. fst (invalidate_cache w fid) = Inr b)
   \<and> (fst (fetch_try loads w fid uc) = Inl e \<longrightarrow>
         fst (fetch loads w fid uc) = Inr (error_result e fid))
   \<and> (db_fault w = Some m
        \<and> db_queries (snd (get_feedback_results loads w fid uc)) \<noteq> db_queries w \<longrightarrow>
         fst (get_feedback_results loads w fid uc) = Inr (error_result (StoreError m) fid))
   \<and> field (error_result e fid) ''status'' = PStr ''error''
   \<and> field (error_result e fid) ''message'' = PStr (''Error retrieving results: '' @ exc_str e)
   \<and> field (error_result e fid) ''feedback_id'' = PStr fid
   \<and> field (error_result e fid) ''cache_hit'' = PBool False
   \<and> field (error_result e fid) ''retrieved_from'' = PStr ''error''"
proof -
  have queried_fault: "db_fault w = Some m
        \<and> db_queries (snd (get_feedback_results loads w fid uc)) \<noteq> db_queries w \<longrightarrow>
         fst (get_feedback_results loads w fid uc) = Inr (error_result (StoreError m) fid)"
  proof
    assume a: "db_fault w = Some m
        \<and> db_queries (snd (get_feedback_results loads w fid uc)) \<noteq> db_queries w"
    let ?w' = "if uc then snd (cm_get w fid) else w"
    from a have e: "get_feedback_results loads w fid uc = fetch loads ?w' fid uc"
      using get_feedback_results_queried by blast
    have "fetch_answer loads ?w' fid = fetch_answer loads w fid"
      by (rule fetch_answer_frame) (simp_all add: cm_get_frame)
    with a show "fst (get_feedback_results loads w fid uc) = Inr (error_result (StoreError m) fid)"
      by (simp add: e fetch_fst fetch_answer_fault)
  qed
  have returns: "cache_holds_dicts w \<longrightarrow> (\<exists>r. fst (get_feedback_results loads w fid uc) = Inr r)"
    using get_feedback_results_returns by blast
  have inv: "\<exists>b. fst (invalidate_cache w fid) = Inr b"
    unfolding invalidate_cache_def by (rule cm_invalidate_returns)
  have caught: "fst (fetch_try loads w fid uc) = Inl e \<longrightarrow>
         fst (fetch loads w fid uc) = Inr (error_result e fid)"
    using fetch_caught by blast
  from returns inv caught queried_fault show ?thesis
    by (simp add: error_result_fields)
qed

theorem faults_become_results_witness:
  "cache_holds_dicts (fresh_world False\<lparr>db_fault := Some ''timeout''\<rparr>)
   \<and> db_queries (snd (get_feedback_results (\<lambda>s. Inl JSONDecodeError)
         (fresh_world False\<lparr>db_fault := Some ''timeout''\<rparr>) ''A1'' True)) = 1
   \<and> fst (fetch_try (\<lambda>s. Inl JSONDecodeError) (fresh_world False\<lparr>db_fault := Some ''timeout''\<rparr>) ''A1'' True)
       = Inl (StoreError ''timeout'')
   \<and> fst (get_feedback_results (\<lambda>s. Inl JSONDecodeError)
         (fresh_world False\<lparr>db_fault := Some ''timeout''\<rparr>) ''A1'' True)
       = Inr (error_result (StoreError ''timeout'') ''A1'')"
proof -
  let ?w = "fresh_world False\<lparr>db_fault := Some ''timeout''\<rparr>"
  have a: "cache_holds_dicts ?w"
    by (simp add: cache_holds_dicts_def backing_store_def fresh_world_def)
  have b: "db_queries (snd (get_feedback_results (\<lambda>s. Inl JSONDecodeError) ?w ''A1'' True)) = 1"
    by (simp add: get_feedback_results_def cm_get_def cm_get_try_def fetch_def fetch_try_def
          table_query_def fresh_world_def Let_def)
  have c: "fst (fetch_try (\<lambda>s. Inl JSONDecodeError) ?w ''A1'' True) = Inl (StoreError ''timeout'')"
    by (simp add: fetch_try_def table_query_def fresh_world_def Let_def)
  have d: "db_fault ?w = Some ''timeout'' \<and> db_queries ?w = 0" by (simp add: fresh_world_def)
  from faults_become_results [of ?w "\<lambda>s. Inl JSONDecodeError" "''A1''" True "StoreError ''timeout''" "''timeout''"]
    a b c d
  show ?thesis by simp
qed

subsection \<open>Population of the cache\<close>

lemma cm_get_store_none:
  "backing_store w key = None \<Longrightarrow> backing_store (snd (cm_get w fid)) key = None"
  using cm_get_store [of w fid key] by (cases "backing_store (snd (cm_get w fid)) key") auto

lemma serve_cached_none:
  "backing_store w key = None \<Longrightarrow> backing_store (snd (serve_cached w fid v)) key = None"
  "cached w k = None \<Longrightarrow> cached (snd (serve_cached w fid v)) k = None"
  using serve_cached_world [of w fid v]
  by (auto simp: alias_update_store alias_update_cached)

lemma serve_cached_from_cache:
  "fst (serve_cached w fid v) = Inr r \<Longrightarrow> field r ''retrieved_from'' = PStr ''cache''"
  by (auto simp: serve_cached_def py_setitem_def field_set_same split: sum.splits pyval.splits)

lemma no_entry_created:
  assumes "\<not> (uc \<and> result_field (fst (get_feedback_results loads w fid uc)) ''status''
                    = Some (PStr ''completed''))"
  shows "(backing_store w key = None \<longrightarrow>
            backing_store (snd (get_feedback_results loads w fid uc)) key = None)
       \<and> (cached w k = None \<longrightarrow> cached (snd (get_feedback_results loads w fid uc)) k = None)"
  using get_feedback_results_cases [of loads w fid uc]
proof
  let ?w' = "if uc then snd (cm_get w fid) else w"
  assume e: "get_feedback_results loads w fid uc = fetch loads ?w' fid uc"
  from assms have "\<not> (uc \<and> field (fetch_answer loads ?w' fid) ''status'' = PStr ''completed'')"
    by (simp add: e fetch_fst result_field_def)
  then have s: "snd (get_feedback_results loads w fid uc) = queried ?w'"
    unfolding e by (simp add: fetch_snd)
  show ?thesis
    unfolding s by (simp add: queried_frame cm_get_store_none cm_get_cached)
next
  assume "\<exists>v t. uc \<and> fst (cm_get w fid) = Inr (Some v) \<and> truthy v
         \<and> backing_store w (get_cache_key fid) = Some (v, t)
         \<and> get_feedback_results loads w fid uc = serve_cached (snd (cm_get w fid)) fid v"
  then obtain v where
    e: "get_feedback_results loads w fid uc = serve_cached (snd (cm_get w fid)) fid v"
    by blast
  show ?thesis
    unfolding e by (simp add: serve_cached_none cm_get_store_none cm_get_cached)
qed

lemma live_update_same: "t < t' \<Longrightarrow> live (s(key \<mapsto> (v, t'))) t key = Some v"
  by (simp add: live_def)

lemma entry_created:
  assumes r: "fst (get_feedback_results loads w fid True) = Inr r"
    and st: "field r ''status'' = PStr ''completed''"
    and db: "field r ''retrieved_from'' = PStr ''database''"
    and ok: "redis_ok (snd (cm_get w fid))"
    and cf: "cached_form w r = Some doc"
    and ttl: "0 < cache_ttl w"
  shows "backing_store (snd (get_feedback_results loads w fid True)) (get_cache_key fid)
           = Some (doc, now w + cache_ttl w)
       \<and> backing_store (snd (get_feedback_results loads w fid True))
           = (backing_store (snd (cm_get w fid)))(get_cache_key fid \<mapsto> (doc, now w + cache_ttl w))
       \<and> redis_available (snd (get_feedback_results loads w fid True)) = redis_available w
       \<and> cached (snd (get_feedback_results loads w fid True)) fid = Some doc"
proof -
  let ?w1 = "snd (cm_get w fid)"
  have e: "get_feedback_results loads w fid True = fetch loads ?w1 fid True"
    using get_feedback_results_cases [of loads w fid True]
  proof
    assume "get_feedback_results loads w fid True
              = fetch loads (if True then snd (cm_get w fid) else w) fid True"
    then show ?thesis by simp
  next
    assume "\<exists>v t. True \<and> fst (cm_get w fid) = Inr (Some v) \<and> truthy v
         \<and> backing_store w (get_cache_key fid) = Some (v, t)
         \<and> get_feedback_results loads w fid True = serve_cached (snd (cm_get w fid)) fid v"
    then obtain v where
      "get_feedback_results loads w fid True = serve_cached (snd (cm_get w fid)) fid v"
      by blast
    with r have "fst (serve_cached (snd (cm_get w fid)) fid v) = Inr r" by simp
    from serve_cached_from_cache [OF this] db show ?thesis by simp
  qed
  from r have a: "fetch_answer loads ?w1 fid = r" by (simp add: e fetch_fst)
  have s: "snd (get_feedback_results loads w fid True) = snd (cm_set (queried ?w1) fid r)"
    unfolding e by (simp add: fetch_snd a st)
  have ok': "redis_ok (queried ?w1)" using ok by (simp add: queried_frame)
  have cf': "cached_form (queried ?w1) r = Some doc"
    using cf by (simp add: cached_form_def queried_frame cm_get_frame)
  have ttl': "redis_available (queried ?w1) \<longrightarrow> 0 < cache_ttl (queried ?w1)"
    using ttl by (simp add: queried_frame cm_get_frame)
  have b: "backing_store (snd (get_feedback_results loads w fid True))
           = (backing_store ?w1)(get_cache_key fid \<mapsto> (doc, now w + cache_ttl w))"
    unfolding s using cm_set_ok(2) [OF ok' cf' ttl', of fid]
    by (simp add: queried_frame cm_get_frame)
  have n: "now (snd (get_feedback_results loads w fid True)) = now w"
    unfolding s by (simp add: cm_set_frame queried_frame cm_get_frame)
  have ra: "redis_available (snd (get_feedback_results loads w fid True)) = redis_available w"
    unfolding s by (simp add: cm_set_frame queried_frame cm_get_frame)
  have c: "cached (snd (get_feedback_results loads w fid True)) fid = Some doc"
    using ttl by (simp add: cached_def b n live_update_same)
  from b ra c show ?thesis by simp
qed

text \<open>
  C3.  A call of \<^verbatim>\<open>get_feedback_results\<close> creates no cache entry unless \<^verbatim>\<open>use_cache\<close> is
  true and the status of its result is \<^verbatim>\<open>completed\<close>: a key without an entry has none
  afterwards, and an id for which a lookup is a miss stays a miss.  When \<^verbatim>\<open>use_cache\<close> is
  true, the result comes from the table with status \<^verbatim>\<open>completed\<close>, and the cache accepts
  the write (the backend call does not fail, the response can be written, the TTL is
  positive), the cache holds the response for that id afterwards.
\<close>

theorem cache_populated_iff_completed:
  "(\<not> (uc \<and> result_field (fst (get_feedback_results loads w fid uc)) ''status''
               = Some (PStr ''completed'')) \<longrightarrow>
      (backing_store w key = None \<longrightarrow>
         backing_store (snd (get_feedback_results loads w fid uc)) key = None)
    \<and> (cached w k = None \<longrightarrow> cached (snd (get_feedback_results loads w fid uc)) k = None))
   \<and> (fst (get_feedback_results loads w fid True) = Inr r
      \<and> field r ''status'' = PStr ''completed''
      \<and> field r ''retrieved_from'' = PStr ''database''
      \<and> redis_ok (snd (cm_get w fid)) \<and> cached_form w r = Some doc \<and> 0 < cache_ttl w \<longrightarrow>
        cached (snd (get_feedback_results loads w fid True)) fid = Some doc)"
  using no_entry_created [of uc loads w fid key k] entry_created [of loads w fid r doc]
  by blast

lemma scenario_format_response:
  "format_response (\<lambda>s. Inl JSONDecodeError) 300 scenario_record =
     Inr (PDict
        [(PStr ''feedback_id'', PStr ''A1''),
         (PStr ''status'', PStr ''completed''),
         (PStr ''message'', PStr ''Analysis completed successfully''),
         (PStr ''created_at'', PNone), (PStr ''updated_at'', PNone),
         (PStr ''processing_timestamp'', PNone),
         (PStr ''request_id'', PNone), (PStr ''original_data'', PDict []),
         (PStr ''cache_metadata'',
          PDict [(PStr ''cacheable'', PBool True), (PStr ''cache_ttl'', PInt 300)]),
         (PStr ''results'',
          PDict
           [(PStr ''executive_summary'', PStr ''Good''),
            (PStr ''key_insights'',
             PDict [(PStr ''main_points'', PList [PStr ''x'']),
                    (PStr ''customer_impact_assessment'', PStr ''low'')]),
            (PStr ''actionable_recommendations'',
             PDict [(PStr ''message'', PStr ''No specific recommendations generated'')]),
            (PStr ''analysis_confidence'', PStr ''High'')])])"
  by (simp add: format_response_def scenario_record_def Let_def get_or_def status_message_def
        status_messages_def extract_analysis_data_def extract_try_def loads_if_str_def
        structure_analysis_results_def format_recommendations_def set_str_def)

lemma fresh_lookup_misses: "fst (cm_get (table_with redis fid rcd) fid') = Inr None"
  by (simp add: cm_get_def cm_get_try_def redis_get_def redis_round_trip_def live_def
        table_with_def fresh_world_def Let_def)

lemma fresh_world_ok:
  "redis_ok (table_with redis fid rcd)"
  "redis_ok (snd (cm_get (table_with redis fid rcd) fid'))"
  "cached (table_with redis fid rcd) fid' = None"
  "cache_ttl (table_with redis fid rcd) = 300"
  "now (table_with redis fid rcd) = 1000"
  "redis_available (table_with redis fid rcd) = redis"
  by (simp_all add: redis_ok_def cm_get_def cm_get_try_def redis_get_def redis_round_trip_def
        cached_def backing_store_def live_def table_with_def fresh_world_def Let_def)

lemma scenario_first_call:
  "fst (get_feedback_results (\<lambda>s. Inl JSONDecodeError) (table_with redis ''A1'' scenario_record) ''A1'' True)
     = Inr scenario_response"
proof -
  let ?w = "table_with redis ''A1'' scenario_record"
  have a: "fetch_answer (\<lambda>s. Inl JSONDecodeError) (snd (cm_get ?w ''A1'')) ''A1'' = fetch_answer (\<lambda>s. Inl JSONDecodeError) ?w ''A1''"
    by (rule fetch_answer_after_get)
  show ?thesis
    unfolding get_feedback_results_miss [OF fresh_lookup_misses] fetch_fst a
    by (simp add: fetch_answer_def table_with_def fresh_world_def scenario_format_response
          py_setitem_def set_str_def scenario_response_def)
qed

lemma scenario_response_fields:
  "field scenario_response ''status'' = PStr ''completed''"
  "field scenario_response ''retrieved_from'' = PStr ''database''"
  "field scenario_response ''cache_hit'' = PBool False"
  by (simp_all add: scenario_response_def field_def get_or_def)

lemma processing_first_call:
  "result_field
     (fst (get_feedback_results (\<lambda>s. Inl JSONDecodeError) (table_with redis ''B2'' processing_record) ''B2'' True))
     ''status'' = Some (PStr ''processing'')"
proof -
  let ?w = "table_with redis ''B2'' processing_record"
  have a: "fetch_answer (\<lambda>s. Inl JSONDecodeError) (snd (cm_get ?w ''B2'')) ''B2'' = fetch_answer (\<lambda>s. Inl JSONDecodeError) ?w ''B2''"
    by (rule fetch_answer_after_get)
  show ?thesis
    unfolding get_feedback_results_miss [OF fresh_lookup_misses] fetch_fst a
    by (simp add: fetch_answer_def table_with_def fresh_world_def format_response_def
          processing_record_def Let_def get_or_def status_message_def status_messages_def
          py_setitem_def set_str_def result_field_def field_def)
qed

theorem cache_populated_iff_completed_witness:
  "cached (table_with False ''A1'' scenario_record) ''A1'' = None
   \<and> cached (snd (get_feedback_results (\<lambda>s. Inl JSONDecodeError) (table_with False ''A1'' scenario_record)
               ''A1'' True)) ''A1'' = Some scenario_response
   \<and> result_field
       (fst (get_feedback_results (\<lambda>s. Inl JSONDecodeError) (table_with False ''B2'' processing_record) ''B2'' True))
       ''status'' = Some (PStr ''processing'')
   \<and> cached (snd (get_feedback_results (\<lambda>s. Inl JSONDecodeError) (table_with False ''B2'' processing_record)
               ''B2'' True)) ''B2'' = None"
proof -
  let ?wa = "table_with False ''A1'' scenario_record"
  let ?wb = "table_with False ''B2'' processing_record"
  have cf: "cached_form ?wa scenario_response = Some scenario_response"
    by (simp add: cached_form_def fresh_world_ok)
  have p: "\<not> (True \<and> result_field (fst (get_feedback_results (\<lambda>s. Inl JSONDecodeError) ?wb ''B2'' True)) ''status''
               = Some (PStr ''completed''))"
    by (simp add: processing_first_call)
  from cache_populated_iff_completed [where uc = True and loads = "\<lambda>s. Inl JSONDecodeError" and w = ?wa
      and fid = "''A1''" and r = scenario_response and doc = scenario_response]
    scenario_first_call [of False] scenario_response_fields cf
    fresh_world_ok(2) [of False "''A1''" scenario_record "''A1''"]
  have a: "cached (snd (get_feedback_results (\<lambda>s. Inl JSONDecodeError) ?wa ''A1'' True)) ''A1''
             = Some scenario_response"
    by (simp add: fresh_world_ok)
  from cache_populated_iff_completed [where uc = True and loads = "\<lambda>s. Inl JSONDecodeError" and w = ?wb
      and fid = "''B2''" and k = "''B2''"] p
  have b: "cached (snd (get_feedback_results (\<lambda>s. Inl JSONDecodeError) ?wb ''B2'' True)) ''B2'' = None"
    by (simp add: fresh_world_ok)
  from a b show ?thesis by (simp add: fresh_world_ok processing_first_call)
qed

subsection \<open>JSON documents of responses\<close>

lemma collect_length: "collect xs = Inr ys \<Longrightarrow> length ys = length xs"
  by (induction xs arbitrary: ys) (auto split: sum.splits)

lemma dict_set_nonempty: "dict_set d k v \<noteq> []"
  by (cases d) (auto split: if_splits)

lemma foldl_dict_set_nonempty:
  "acc \<noteq> [] \<or> items \<noteq> [] \<Longrightarrow>
   foldl (\<lambda>d kv. dict_set d (fst kv) (snd kv)) acc items \<noteq> []"
  by (induction items arbitrary: acc) (auto simp: dict_set_nonempty)

lemma json_doc_dict:
  assumes "json_doc (PDict d) = Inr doc" and "d \<noteq> []"
  shows "\<exists>d'. doc = PDict d' \<and> d' \<noteq> []"
proof -
  from assms(1) obtain items where
    c: "collect (map (\<lambda>kv. case json_key (fst kv) of
                           Inl e \<Rightarrow> Inl e
                         | Inr k \<Rightarrow>
                             (case json_doc (snd kv) of
                                Inl e \<Rightarrow> Inl e
                              | Inr v \<Rightarrow> Inr (PStr k, v))) d) = Inr items"
    and doc: "doc = PDict (foldl (\<lambda>d kv. dict_set d (fst kv) (snd kv)) [] items)"
    by (auto split: sum.splits)
  from collect_length [OF c] assms(2) have "items \<noteq> []" by auto
  then have "foldl (\<lambda>d kv. dict_set d (fst kv) (snd kv)) [] items \<noteq> []"
    by (simp add: foldl_dict_set_nonempty)
  with doc show ?thesis by simp
qed

lemma cached_form_nonempty:
  assumes "cached_form w (PDict d) = Some doc" and "d \<noteq> []"
  shows "\<exists>d'. doc = PDict d' \<and> d' \<noteq> []"
proof (cases "redis_available w")
  case True
  with assms(1) have "json_doc (PDict d) = Inr doc"
    by (auto simp: cached_form_def split: sum.splits)
  from json_doc_dict [OF this assms(2)] show ?thesis .
next
  case False
  with assms show ?thesis by (auto simp: cached_form_def)
qed

lemma collect_map_same:
  "(\<And>x. x \<in> set xs \<Longrightarrow> f x = Inr x) \<Longrightarrow> collect (map f xs) = Inr xs"
  by (induction xs) auto

lemma dict_set_fresh:
  "key_norm k \<notin> key_norm ` fst ` set d \<Longrightarrow> dict_set d k v = d @ [(k, v)]"
  by (induction d) auto

lemma foldl_dict_set_distinct:
  "distinct (map (\<lambda>kv. key_norm (fst kv)) (acc @ items)) \<Longrightarrow>
   foldl (\<lambda>d kv. dict_set d (fst kv) (snd kv)) acc items = acc @ items"
proof (induction items arbitrary: acc)
  case Nil
  then show ?case by simp
next
  case (Cons kv items)
  from Cons.prems have f: "key_norm (fst kv) \<notin> key_norm ` fst ` set acc"
    by (auto simp: image_iff)
  have "dict_set acc (fst kv) (snd kv) = acc @ [kv]"
    using dict_set_fresh [OF f, of "snd kv"] by simp
  moreover from Cons.prems have "distinct (map (\<lambda>kv. key_norm (fst kv)) ((acc @ [kv]) @ items))"
    by simp
  ultimately show ?case using Cons.IH [of "acc @ [kv]"] by simp
qed

lemma str_keys_distinct:
  assumes "list_all (\<lambda>kv. is_str (fst kv)) kvs" and "distinct (map fst kvs)"
  shows "distinct (map (\<lambda>kv. key_norm (fst kv)) kvs)"
proof -
  have "map (\<lambda>kv. key_norm (fst kv)) kvs = map fst kvs"
    using assms(1)
    by (induction kvs) (auto simp: is_str_def split: pyval.splits)
  with assms(2) show ?thesis by (simp only:)
qed

lemma json_doc_native: "json_native v \<Longrightarrow> json_doc v = Inr v"
proof (induction v rule: json_doc.induct)
  case (1 n)
  then show ?case by simp
next
  case (2 xs)
  then have "\<And>x. x \<in> set xs \<Longrightarrow> json_doc x = Inr x"
    by (simp add: list_all_iff)
  from collect_map_same [of xs json_doc, OF this] show ?case by simp
next
  case (3 kvs)
  let ?g = "\<lambda>kv. case json_key (fst kv) of
                           Inl e \<Rightarrow> Inl e
                         | Inr k \<Rightarrow>
                             (case json_doc (snd kv) of
                                Inl e \<Rightarrow> Inl e
                              | Inr v \<Rightarrow> Inr (PStr k, v))"
  from "3.prems" have n: "list_all (\<lambda>kv. is_str (fst kv) \<and> json_native (snd kv)) kvs"
    and dk: "distinct (map fst kvs)" by simp_all
  have "\<And>kv. kv \<in> set kvs \<Longrightarrow> ?g kv = Inr kv"
  proof -
    fix kv assume m: "kv \<in> set kvs"
    with n have s: "is_str (fst kv)" and j: "json_native (snd kv)" by (simp_all add: list_all_iff)
    from s obtain k where k: "fst kv = PStr k" by (auto simp: is_str_def split: pyval.splits)
    then have jk: "json_key (fst kv) = Inr k" by simp
    from "3.IH" [OF m jk j] have "json_doc (snd kv) = Inr (snd kv)" .
    with jk k show "?g kv = Inr kv" by (cases kv) simp
  qed
  from collect_map_same [of kvs ?g, OF this] have c: "collect (map ?g kvs) = Inr kvs" .
  from n have "list_all (\<lambda>kv. is_str (fst kv)) kvs" by (simp add: list_all_iff)
  from str_keys_distinct [OF this dk]
  have "foldl (\<lambda>d kv. dict_set d (fst kv) (snd kv)) [] kvs = kvs"
    using foldl_dict_set_distinct [of "[]" kvs] by simp
  with c show ?case by simp
qed simp_all

subsection \<open>A second call\<close>

lemma database_result_fetch:
  assumes r: "fst (get_feedback_results loads w fid True) = Inr r"
    and db: "field r ''retrieved_from'' = PStr ''database''"
  shows "get_feedback_results loads w fid True = fetch loads (snd (cm_get w fid)) fid True"
  using get_feedback_results_cases [of loads w fid True]
proof
  assume "get_feedback_results loads w fid True
            = fetch loads (if True then snd (cm_get w fid) else w) fid True"
  then show ?thesis by simp
next
  assume "\<exists>v t. True \<and> fst (cm_get w fid) = Inr (Some v) \<and> truthy v
       \<and> backing_store w (get_cache_key fid) = Some (v, t)
       \<and> get_feedback_results loads w fid True = serve_cached (snd (cm_get w fid)) fid v"
  then obtain v where
    "get_feedback_results loads w fid True = serve_cached (snd (cm_get w fid)) fid v"
    by blast
  with r have "fst (serve_cached (snd (cm_get w fid)) fid v) = Inr r" by simp
  from serve_cached_from_cache [OF this] db show ?thesis by simp
qed

lemma database_result_dict:
  assumes "fst (get_feedback_results loads w fid True) = Inr r"
    and "field r ''retrieved_from'' = PStr ''database''"
  shows "\<exists>d. r = PDict d \<and> d \<noteq> []"
proof -
  from assms(1) have "fetch_answer loads (snd (cm_get w fid)) fid = r"
    by (simp add: database_result_fetch [OF assms] fetch_fst)
  with fetch_answer_dict [of loads "snd (cm_get w fid)" fid] show ?thesis by simp
qed

lemma hit_served:
  assumes "redis_ok w" and "cached w fid = Some (PDict d)" and "d \<noteq> []"
  shows "get_feedback_results loads w fid True = serve_cached (snd (cm_get w fid)) fid (PDict d)"
proof -
  have g: "fst (cm_get w fid) = Inr (Some (PDict d))"
    using cm_get_ok [OF assms(1), of fid] assms(2) by simp
  have t: "truthy (PDict d)" using assms(3) by simp
  show ?thesis by (rule get_feedback_results_hit [OF g t])
qed

lemma miss_answer:
  assumes "redis_ok w" and "cached w fid = None"
  shows "fst (get_feedback_results loads w fid True) = Inr (fetch_answer loads w fid)"
proof -
  have g: "fst (cm_get w fid) = Inr None"
    using cm_get_ok [OF assms(1), of fid] assms(2) by simp
  show ?thesis
    by (simp add: get_feedback_results_miss [OF g] fetch_fst fetch_answer_after_get)
qed

lemma get_feedback_results_frame:
  "redis_available (snd (get_feedback_results loads w fid uc)) = redis_available w
   \<and> cache_ttl (snd (get_feedback_results loads w fid uc)) = cache_ttl w
   \<and> now (snd (get_feedback_results loads w fid uc)) = now w
   \<and> db_fault (snd (get_feedback_results loads w fid uc)) = db_fault w
   \<and> state_table (snd (get_feedback_results loads w fid uc)) = state_table w"
  using get_feedback_results_cases [of loads w fid uc]
proof
  assume e: "get_feedback_results loads w fid uc
               = fetch loads (if uc then snd (cm_get w fid) else w) fid uc"
  show ?thesis
    unfolding e by (simp add: fetch_snd cm_set_frame queried_frame cm_get_frame)
next
  assume "\<exists>v t. uc \<and> fst (cm_get w fid) = Inr (Some v) \<and> truthy v
       \<and> backing_store w (get_cache_key fid) = Some (v, t)
       \<and> get_feedback_results loads w fid uc = serve_cached (snd (cm_get w fid)) fid v"
  then obtain v where
    e: "get_feedback_results loads w fid uc = serve_cached (snd (cm_get w fid)) fid v"
    by blast
  from serve_cached_world [of "snd (cm_get w fid)" fid v] show ?thesis
    unfolding e by (auto simp: alias_update_frame cm_get_frame)
qed

lemma cm_get_quiet: "redis_faults w = [] \<Longrightarrow> redis_faults (snd (cm_get w fid)) = []"
  by (auto simp: cm_get_def cm_get_try_def redis_get_def redis_round_trip_def Let_def
           split: option.splits if_splits)

lemma cm_set_quiet: "redis_faults w = [] \<Longrightarrow> redis_faults (snd (cm_set w fid r)) = []"
  by (auto simp: cm_set_def cm_set_try_def redis_setex_def redis_round_trip_def Let_def
           split: sum.splits if_splits)

lemma get_feedback_results_quiet:
  assumes "redis_faults w = []"
  shows "redis_faults (snd (get_feedback_results loads w fid uc)) = []"
  using get_feedback_results_cases [of loads w fid uc]
proof
  assume e: "get_feedback_results loads w fid uc
               = fetch loads (if uc then snd (cm_get w fid) else w) fid uc"
  show ?thesis
    unfolding e using assms by (simp add: fetch_snd cm_set_quiet queried_frame cm_get_quiet)
next
  assume "\<exists>v t. uc \<and> fst (cm_get w fid) = Inr (Some v) \<and> truthy v
       \<and> backing_store w (get_cache_key fid) = Some (v, t)
       \<and> get_feedback_results loads w fid uc = serve_cached (snd (cm_get w fid)) fid v"
  then obtain v where
    e: "get_feedback_results loads w fid uc = serve_cached (snd (cm_get w fid)) fid v"
    by blast
  from serve_cached_world [of "snd (cm_get w fid)" fid v] assms show ?thesis
    unfolding e by (auto simp: alias_update_frame cm_get_quiet)
qed

lemma quiet_ok: "redis_faults w = [] \<Longrightarrow> redis_ok w"
  by (simp add: redis_ok_def)

lemma in_memory_always_ok: "\<not> redis_available w \<Longrightarrow> redis_ok w"
  by (simp add: redis_ok_def)

text \<open>
  C1, as stated, fails in two ways.  A record stored with status \<^verbatim>\<open>completed\<close> from which
  no payload can be extracted is reported as \<^verbatim>\<open>failed\<close> and is not cached, so the second
  call is answered from the table again, with \<^verbatim>\<open>cache_hit\<close> false.  And with the Redis
  backend the cache keeps the JSON text of the response, in which a DynamoDB number has
  become a string: the second call is a hit, but its \<^verbatim>\<open>results\<close> differ from those of the
  first call.
\<close>

theorem second_call_counterexample:
  "stored_status unpayloaded_record = PStr ''completed''
   \<and> result_field
        (fst (get_feedback_results (\<lambda>s. Inl JSONDecodeError) (table_with False ''A1'' unpayloaded_record) ''A1'' True))
        ''status'' = Some (PStr ''failed'')
   \<and> result_field
        (fst (get_feedback_results (\<lambda>s. Inl JSONDecodeError)
               (snd (get_feedback_results (\<lambda>s. Inl JSONDecodeError)
                       (table_with False ''A1'' unpayloaded_record) ''A1'' True))
               ''A1'' True))
        ''cache_hit'' = Some (PBool False)
   \<and> stored_status decimal_record = PStr ''completed''
   \<and> result_field
        (fst (get_feedback_results (\<lambda>s. Inl JSONDecodeError) (table_with True ''A1'' decimal_record) ''A1'' True))
        ''results'' = Some (field (decimal_response (PDecimal 3)) ''results'')
   \<and> result_field
        (fst (get_feedback_results (\<lambda>s. Inl JSONDecodeError)
               (snd (get_feedback_results (\<lambda>s. Inl JSONDecodeError)
                       (table_with True ''A1'' decimal_record) ''A1'' True))
               ''A1'' True))
        ''cache_hit'' = Some (PBool True)
   \<and> result_field
        (fst (get_feedback_results (\<lambda>s. Inl JSONDecodeError)
               (snd (get_feedback_results (\<lambda>s. Inl JSONDecodeError)
                       (table_with True ''A1'' decimal_record) ''A1'' True))
               ''A1'' True))
        ''results'' = Some (field (decimal_response (PStr ''3'')) ''results'')
   \<and> field (decimal_response (PStr ''3'')) ''results''
        \<noteq> field (decimal_response (PDecimal 3)) ''results''"
proof -
  let ?L = "\<lambda>s::string. (Inl JSONDecodeError :: pyerr + pyval)"
  let ?wa = "table_with False ''A1'' unpayloaded_record"
  let ?wa1 = "snd (get_feedback_results ?L ?wa ''A1'' True)"
  let ?wb = "table_with True ''A1'' decimal_record"
  let ?wb1 = "snd (get_feedback_results ?L ?wb ''A1'' True)"
  \<comment> \<open>the record without a payload\<close>
  have fa: "fetch_answer ?L ?wa ''A1'' =
      PDict
       [(PStr ''feedback_id'', PStr ''A1''),
        (PStr ''status'', PStr ''failed''),
        (PStr ''message'', PStr ''Analysis results not found or corrupted''),
        (PStr ''created_at'', PNone), (PStr ''updated_at'', PNone),
        (PStr ''processing_timestamp'', PNone),
        (PStr ''request_id'', PNone), (PStr ''original_data'', PDict []),
        (PStr ''cache_metadata'',
         PDict [(PStr ''cacheable'', PBool True), (PStr ''cache_ttl'', PInt 300)]),
        (PStr ''results'', PDict []), (PStr ''cache_hit'', PBool False),
        (PStr ''retrieved_from'', PStr ''database'')]"
    by (simp add: fetch_answer_def table_with_def fresh_world_def format_response_def
          unpayloaded_record_def Let_def get_or_def status_message_def status_messages_def
          extract_analysis_data_def extract_try_def py_setitem_def set_str_def)
  have a1: "fst (get_feedback_results ?L ?wa ''A1'' True) = Inr (fetch_answer ?L ?wa ''A1'')"
    by (rule miss_answer) (simp_all add: fresh_world_ok)
  then have a2: "result_field (fst (get_feedback_results ?L ?wa ''A1'' True)) ''status''
                   = Some (PStr ''failed'')"
    by (simp add: fa result_field_def field_def get_or_def)
  then have "\<not> (True \<and> result_field (fst (get_feedback_results ?L ?wa ''A1'' True)) ''status''
                   = Some (PStr ''completed''))" by simp
  from no_entry_created [OF this, of "get_cache_key ''A1''" "''A1''"]
  have a3: "cached ?wa1 ''A1'' = None" by (simp add: fresh_world_ok)
  have a4: "redis_ok ?wa1"
    by (rule in_memory_always_ok) (simp add: get_feedback_results_frame fresh_world_ok)
  have "fetch_answer ?L ?wa1 ''A1'' = fetch_answer ?L ?wa ''A1''"
    by (rule fetch_answer_frame) (simp_all add: get_feedback_results_frame)
  with miss_answer [OF a4 a3, of ?L]
  have a5: "result_field (fst (get_feedback_results ?L ?wa1 ''A1'' True)) ''cache_hit''
              = Some (PBool False)"
    by (simp add: fa result_field_def field_def get_or_def)
  \<comment> \<open>the record with a number, behind Redis\<close>
  have ff: "format_response ?L 300 decimal_record =
      Inr (PDict
        [(PStr ''feedback_id'', PStr ''A1''),
         (PStr ''status'', PStr ''completed''),
         (PStr ''message'', PStr ''Analysis completed successfully''),
         (PStr ''created_at'', PNone), (PStr ''updated_at'', PNone),
         (PStr ''processing_timestamp'', PNone),
         (PStr ''request_id'', PNone), (PStr ''original_data'', PDict []),
         (PStr ''cache_metadata'',
          PDict [(PStr ''cacheable'', PBool True), (PStr ''cache_ttl'', PInt 300)]),
         (PStr ''results'',
          PDict
           [(PStr ''executive_summary'', PStr ''Good''),
            (PStr ''key_insights'',
             PDict [(PStr ''main_points'', PList [PDecimal 3]),
                    (PStr ''customer_impact_assessment'', PStr ''Not assessed'')]),
            (PStr ''actionable_recommendations'',
             PDict [(PStr ''message'', PStr ''No specific recommendations generated'')]),
            (PStr ''analysis_confidence'', PStr ''High'')])])"
    by (simp add: format_response_def decimal_record_def Let_def get_or_def status_message_def
          status_messages_def extract_analysis_data_def extract_try_def loads_if_str_def
          structure_analysis_results_def format_recommendations_def set_str_def)
  have fb: "fetch_answer ?L ?wb ''A1'' = decimal_response (PDecimal 3)"
    by (simp add: fetch_answer_def table_with_def fresh_world_def ff py_setitem_def set_str_def
          decimal_response_def)
  have b1: "fst (get_feedback_results ?L ?wb ''A1'' True) = Inr (decimal_response (PDecimal 3))"
    using miss_answer [of ?wb "''A1''" ?L] by (simp add: fresh_world_ok fb)
  have st: "field (decimal_response (PDecimal 3)) ''status'' = PStr ''completed''"
    and rf: "field (decimal_response (PDecimal 3)) ''retrieved_from'' = PStr ''database''"
    by (simp_all add: decimal_response_def field_def get_or_def)
  have jd: "json_doc (decimal_response (PDecimal 3)) = Inr (decimal_response (PStr ''3''))"
    by (simp add: decimal_response_def str_int_def)
  then have cf: "cached_form ?wb (decimal_response (PDecimal 3)) = Some (decimal_response (PStr ''3''))"
    by (simp add: cached_form_def fresh_world_ok)
  from entry_created [OF b1 st rf fresh_world_ok(2) cf]
  have b2: "cached ?wb1 ''A1'' = Some (decimal_response (PStr ''3''))"
    by (simp add: fresh_world_ok)
  have b3: "redis_ok ?wb1"
    by (rule quiet_ok, rule get_feedback_results_quiet) (simp add: table_with_def fresh_world_def)
  obtain d where d: "decimal_response (PStr ''3'') = PDict d" and dn: "d \<noteq> []"
    by (simp add: decimal_response_def)
  from hit_served [OF b3 b2 [unfolded d] dn, of ?L]
  have b4: "fst (get_feedback_results ?L ?wb1 ''A1'' True) =
      Inr (PDict (set_str (set_str d ''cache_hit'' (PBool True)) ''retrieved_from'' (PStr ''cache'')))"
    by (simp add: serve_cached_dict)
  have b5: "result_field (fst (get_feedback_results ?L ?wb1 ''A1'' True)) ''cache_hit''
              = Some (PBool True)"
    by (simp add: b4 result_field_def hit_fields)
  have b6: "result_field (fst (get_feedback_results ?L ?wb1 ''A1'' True)) ''results''
              = Some (field (decimal_response (PStr ''3'')) ''results'')"
    by (simp add: b4 result_field_def hit_fields d)
  have ne: "field (decimal_response (PStr ''3'')) ''results''
        \<noteq> field (decimal_response (PDecimal 3)) ''results''"
    by (simp add: decimal_response_def field_def get_or_def)
  have s1: "stored_status unpayloaded_record = PStr ''completed''"
    by (simp add: stored_status_def unpayloaded_record_def get_or_def)
  have s2: "stored_status decimal_record = PStr ''completed''"
    by (simp add: stored_status_def decimal_record_def get_or_def)
  from s1 a2 a5 s2 b1 b5 b6 ne show ?thesis by (simp add: result_field_def)
qed

text \<open>
  C1, amended.  Let a call with \<^verbatim>\<open>use_cache=True\<close> be answered from the table with
  normalized status \<^verbatim>\<open>completed\<close>, and let the cache accept the write.  Then a second
  call with \<^verbatim>\<open>use_cache=True\<close> at a time within the TTL window, with a backend that
  answers the lookup and whatever has become of the table in between, returns
  \<^verbatim>\<open>cache_hit\<close> true and \<^verbatim>\<open>retrieved_from\<close> \<^verbatim>\<open>cache\<close>, sends no query to the table, and
  its \<^verbatim>\<open>results\<close> are those of the form in which the cache keeps the first response: the
  first response itself with the in-memory cache, its JSON document with Redis.  They
  are identical to the \<^verbatim>\<open>results\<close> of the first response with the in-memory cache, and
  with Redis whenever the first response is a value that JSON carries unchanged.
\<close>

theorem completed_result_served_from_cache:
  assumes "fst (get_feedback_results loads w fid True) = Inr r1"
    and "field r1 ''status'' = PStr ''completed''"
    and "field r1 ''retrieved_from'' = PStr ''database''"
    and "redis_ok (snd (cm_get w fid))"
    and "cached_form w r1 = Some doc"
    and "now w \<le> t2" and "t2 < now w + cache_ttl w"
    and "w2 = (snd (get_feedback_results loads w fid True))
                \<lparr>now := t2, state_table := tbl, db_fault := df, redis_faults := fs\<rparr>"
    and "redis_ok w2"
  shows "\<exists>r2. fst (get_feedback_results loads w2 fid True) = Inr r2
            \<and> field r2 ''cache_hit'' = PBool True
            \<and> field r2 ''retrieved_from'' = PStr ''cache''
            \<and> field r2 ''results'' = field doc ''results''
            \<and> (\<not> redis_available w \<longrightarrow> field r2 ''results'' = field r1 ''results'')
            \<and> (json_native r1 \<longrightarrow> field r2 ''results'' = field r1 ''results'')
            \<and> db_queries (snd (get_feedback_results loads w2 fid True)) = db_queries w2"
proof -
  let ?w1 = "snd (get_feedback_results loads w fid True)"
  from assms(6,7) have ttl: "0 < cache_ttl w" by simp
  from entry_created [OF assms(1-5) ttl]
  have st: "backing_store ?w1 (get_cache_key fid) = Some (doc, now w + cache_ttl w)"
    and ra: "redis_available ?w1 = redis_available w" by simp_all
  have "backing_store w2 = backing_store ?w1"
    by (simp add: assms(8) backing_store_def)
  with st assms(7) have c: "cached w2 fid = Some doc"
    by (simp add: cached_def live_def assms(8))
  from database_result_dict [OF assms(1,3)] obtain d1 where r1: "r1 = PDict d1" and "d1 \<noteq> []"
    by blast
  with cached_form_nonempty [of w d1 doc] assms(5)
  obtain d where doc: "doc = PDict d" and dn: "d \<noteq> []" by blast
  let ?r2 = "PDict (set_str (set_str d ''cache_hit'' (PBool True)) ''retrieved_from'' (PStr ''cache''))"
  have e: "get_feedback_results loads w2 fid True = serve_cached (snd (cm_get w2 fid)) fid (PDict d)"
    by (rule hit_served [OF assms(9) c [unfolded doc] dn])
  then have f: "fst (get_feedback_results loads w2 fid True) = Inr ?r2"
    by (simp add: serve_cached_dict)
  have q: "db_queries (snd (get_feedback_results loads w2 fid True)) = db_queries w2"
    unfolding e by (simp add: serve_cached_queries cm_get_frame)
  have res: "field ?r2 ''results'' = field doc ''results''"
    by (simp add: hit_fields doc)
  have mem: "\<not> redis_available w \<longrightarrow> doc = r1"
    using assms(5) by (auto simp: cached_form_def)
  have nat: "json_native r1 \<longrightarrow> doc = r1"
    using assms(5) json_doc_native [of r1]
    by (auto simp: cached_form_def split: if_splits sum.splits)
  from f q res mem nat show ?thesis
    by (intro exI [of _ ?r2]) (auto simp: hit_fields)
qed

lemma scenario_response_native: "json_native scenario_response"
  by (simp add: scenario_response_def is_str_def)

theorem completed_result_served_from_cache_witness:
  "fst (get_feedback_results (\<lambda>s. Inl JSONDecodeError) (table_with True ''A1'' scenario_record)
          ''A1'' True) = Inr scenario_response
   \<and> redis_ok ((snd (get_feedback_results (\<lambda>s. Inl JSONDecodeError)
                        (table_with True ''A1'' scenario_record) ''A1'' True))
                 \<lparr>now := 1299, state_table := (\<lambda>f. []), db_fault := Some ''down'',
                  redis_faults := []\<rparr>)
   \<and> result_field
        (fst (get_feedback_results (\<lambda>s. Inl JSONDecodeError)
               ((snd (get_feedback_results (\<lambda>s. Inl JSONDecodeError)
                        (table_with True ''A1'' scenario_record) ''A1'' True))
                 \<lparr>now := 1299, state_table := (\<lambda>f. []), db_fault := Some ''down'',
                  redis_faults := []\<rparr>)
               ''A1'' True))
        ''cache_hit'' = Some (PBool True)
   \<and> result_field
        (fst (get_feedback_results (\<lambda>s. Inl JSONDecodeError)
               ((snd (get_feedback_results (\<lambda>s. Inl JSONDecodeError)
                        (table_with True ''A1'' scenario_record) ''A1'' True))
                 \<lparr>now := 1299, state_table := (\<lambda>f. []), db_fault := Some ''down'',
                  redis_faults := []\<rparr>)
               ''A1'' True))
        ''results'' = Some (field scenario_response ''results'')"
proof -
  let ?L = "\<lambda>s::string. (Inl JSONDecodeError :: pyerr + pyval)"
  let ?w = "table_with True ''A1'' scenario_record"
  let ?w2 = "(snd (get_feedback_results ?L ?w ''A1'' True))
                 \<lparr>now := 1299, state_table := (\<lambda>f. []), db_fault := Some ''down'',
                  redis_faults := []\<rparr>"
  have a: "fst (get_feedback_results ?L ?w ''A1'' True) = Inr scenario_response"
    by (rule scenario_first_call)
  have cf: "cached_form ?w scenario_response = Some scenario_response"
    by (simp add: cached_form_def fresh_world_ok json_doc_native [OF scenario_response_native])
  have t: "now ?w \<le> 1299" "1299 < now ?w + cache_ttl ?w" by (simp_all add: fresh_world_ok)
  have ok: "redis_ok ?w2" by (simp add: redis_ok_def)
  from completed_result_served_from_cache [OF a scenario_response_fields(1,2)
      fresh_world_ok(2) cf t refl ok]
  obtain r2 where "fst (get_feedback_results ?L ?w2 ''A1'' True) = Inr r2"
    and "field r2 ''cache_hit'' = PBool True"
    and "json_native scenario_response \<longrightarrow> field r2 ''results'' = field scenario_response ''results''"
    by blast
  with a ok scenario_response_native show ?thesis by (simp add: result_field_def)
qed

end
